theory Spec2Isabelle
  imports Complex_Main
begin

section \<open>Strings and numbers as JavaScript renders them\<close>

text \<open>
  Template literals such as \<^verbatim>\<open>`WF-${state}-${Date.now()}`\<close> print a number in decimal.
  Years and clock readings are non-negative in every call the engines make, so the
  printer is given for naturals.
\<close>

definition digit_char :: "nat \<Rightarrow> char" where
  "digit_char d = char_of (48 + d)"

function show_nat :: "nat \<Rightarrow> string" where
  "show_nat n = (if n < 10 then [digit_char n] else show_nat (n div 10) @ [digit_char (n mod 10)])"
  by pat_completeness auto
termination
  by (relation "measure id") auto

declare show_nat.simps [simp del]

text \<open>\<^verbatim>\<open>String.prototype.toLowerCase\<close>, on the ASCII letters.\<close>

definition lower_char :: "char \<Rightarrow> char" where
  "lower_char c =
     (let n = (of_char c :: nat) in if 65 \<le> n \<and> n \<le> 90 then char_of (n + 32) else c)"

definition toLowerCase :: "string \<Rightarrow> string" where
  "toLowerCase s = map lower_char s"

fun startsWith :: "'a list \<Rightarrow> 'a list \<Rightarrow> bool" where
  "startsWith xs [] = True"
| "startsWith [] (y # ys) = False"
| "startsWith (x # xs) (y # ys) = (x = y \<and> startsWith xs ys)"

text \<open>\<^verbatim>\<open>String.prototype.includes\<close>: the needle occurs at some position.\<close>

fun js_includes :: "'a list \<Rightarrow> 'a list \<Rightarrow> bool" where
  "js_includes [] sub = (sub = [])"
| "js_includes (c # cs) sub = (startsWith (c # cs) sub \<or> js_includes cs sub)"


section \<open>The workflow automation engine (workflow\_automation\_engine.js)\<close>

subsection \<open>Data\<close>

text \<open>Clock readings are milliseconds since the epoch.\<close>

type_synonym timestamp = nat

text \<open>
  The four values the code ever writes to or compares with \<^verbatim>\<open>step.status\<close>.
\<close>

datatype step_status = Pending | InProgress | Completed | Failed

text \<open>
  What an executor returns. Only \<^verbatim>\<open>success\<close> is read by the engine; the remaining
  payload is kept as the name of the action and the error message, if any.
\<close>

record step_result =
  sr_success :: bool
  sr_action :: string
  sr_error :: "string option"

text \<open>A step of a state's template: \<^verbatim>\<open>{ id, name, duration, critical }\<close>.\<close>

record step_spec =
  spec_id :: string
  spec_name :: string
  spec_duration :: nat
  spec_critical :: bool

text \<open>A step of a workflow instance, as \<^verbatim>\<open>createFormationWorkflow\<close> builds it.\<close>

record step =
  step_id :: string
  step_name :: string
  duration :: nat
  critical :: bool
  status :: step_status
  startDate :: "timestamp option"
  completedDate :: "timestamp option"
  result :: "step_result option"
  dependencies :: "string list"
  automation :: "bool \<times> string"

record base_workflow =
  bw_name :: string
  bw_steps :: "step_spec list"
  totalDays :: nat
  bw_cost :: nat
  optimizations :: "string list"

text \<open>
  The workflow object stored as \<^verbatim>\<open>workflow_data\<close>. \<^verbatim>\<open>nextAction\<close> holds a step
  object in the source; the model keeps that step's id.
\<close>

record workflow =
  wf_id :: string
  businessName :: string
  wf_state :: string
  wf_type :: string
  wf_status :: string
  baseWorkflow :: string
  steps :: "step list"
  totalEstimatedDays :: nat
  totalEstimatedCost :: nat
  createdDate :: timestamp
  nextAction :: "string option"
  progress :: rat
  smartOptimizations :: "string list"

text \<open>
  A row of \<^verbatim>\<open>llc_formation.workflows\<close>: the \<^verbatim>\<open>status\<close> column is separate from the
  \<^verbatim>\<open>status\<close> field inside \<^verbatim>\<open>workflow_data\<close>.
\<close>

record wf_row =
  row_status :: string
  workflow_data :: workflow
  completed_at :: "timestamp option"

record memory_entry =
  mem_type :: string
  mem_ref :: string
  mem_content :: string

text \<open>
  One invocation of a step executor: the workflow and step it was invoked for, and the
  status of that step in the workflow object handed to the executor.
\<close>

record executor_call =
  ec_workflow :: string
  ec_step :: string
  ec_status :: "step_status option"

text \<open>
  Everything the engine can change: the table of workflows, the memory system, the
  evidence chain and the trace of executor invocations.
\<close>

record wf_world =
  workflows :: "string \<rightharpoonup> wf_row"
  wf_memory :: "memory_entry list"
  wf_chain :: "string list"
  executor_calls :: "executor_call list"

record formation_data =
  fd_businessName :: string
  fd_state :: string

record step_data =
  agentName :: "string option"
  agentAddress :: "string option"

text \<open>
  The reply of the language model in \<^verbatim>\<open>optimizeWorkflowWithAI\<close>: each field may be
  missing.
\<close>

record ai_optimization =
  ai_steps :: "step_spec list option"
  ai_totalDays :: "nat option"
  ai_cost :: "nat option"
  ai_optimizations :: "string list option"

text \<open>
  The document engine is an external collaborator: a call either returns a result with
  a \<^verbatim>\<open>success\<close> flag or throws.
\<close>

datatype doc_outcome = DocReturned bool | DocThrew string

type_synonym doc_engine = "string \<Rightarrow> string \<Rightarrow> string \<Rightarrow> doc_outcome"

subsection \<open>The state templates\<close>

definition mk_spec :: "string \<Rightarrow> string \<Rightarrow> nat \<Rightarrow> bool \<Rightarrow> step_spec" where
  "mk_spec i n d c = \<lparr>spec_id = i, spec_name = n, spec_duration = d, spec_critical = c\<rparr>"

definition stateWorkflows :: "string \<Rightarrow> base_workflow option" where
  "stateWorkflows st =
    (if st = ''FL'' then Some
       \<lparr>bw_name = ''Florida LLC Formation'',
        bw_steps =
          [mk_spec ''name_check'' ''Business Name Availability Check'' 1 True,
           mk_spec ''name_reservation'' ''Name Reservation (Optional)'' 1 False,
           mk_spec ''registered_agent'' ''Secure Registered Agent'' 1 True,
           mk_spec ''articles_prep'' ''Prepare Articles of Organization'' 1 True,
           mk_spec ''articles_filing'' ''File Articles with Florida DOS'' 5 True,
           mk_spec ''ein_application'' ''Apply for Federal EIN'' 1 True,
           mk_spec ''operating_agreement'' ''Create Operating Agreement'' 2 False,
           mk_spec ''business_licenses'' ''Identify Business Licenses'' 3 False,
           mk_spec ''compliance_setup'' ''Setup Compliance Calendar'' 1 True],
        totalDays = 15, bw_cost = 125, optimizations = []\<rparr>
     else if st = ''WY'' then Some
       \<lparr>bw_name = ''Wyoming LLC Formation'',
        bw_steps =
          [mk_spec ''name_check'' ''Business Name Availability Check'' 1 True,
           mk_spec ''name_reservation'' ''Name Reservation (Optional)'' 1 False,
           mk_spec ''registered_agent'' ''Secure Wyoming Registered Agent'' 1 True,
           mk_spec ''articles_prep'' ''Prepare Articles of Organization'' 1 True,
           mk_spec ''articles_filing'' ''File Articles with Wyoming SOS'' 3 True,
           mk_spec ''ein_application'' ''Apply for Federal EIN'' 1 True,
           mk_spec ''operating_agreement'' ''Create Operating Agreement'' 2 False,
           mk_spec ''business_licenses'' ''Identify Business Licenses'' 2 False,
           mk_spec ''compliance_setup'' ''Setup Compliance Calendar'' 1 True],
        totalDays = 12, bw_cost = 100, optimizations = []\<rparr>
     else if st = ''IL'' then Some
       \<lparr>bw_name = ''Illinois LLC Formation'',
        bw_steps =
          [mk_spec ''name_check'' ''Business Name Availability Check'' 1 True,
           mk_spec ''name_reservation'' ''Name Reservation (Optional)'' 1 False,
           mk_spec ''registered_agent'' ''Secure Registered Agent'' 1 True,
           mk_spec ''articles_prep'' ''Prepare Articles of Organization'' 1 True,
           mk_spec ''articles_filing'' ''File Articles with Illinois SOS'' 7 True,
           mk_spec ''ein_application'' ''Apply for Federal EIN'' 1 True,
           mk_spec ''operating_agreement'' ''Create Operating Agreement'' 2 False,
           mk_spec ''business_licenses'' ''Identify Business Licenses'' 5 False,
           mk_spec ''compliance_setup'' ''Setup Compliance Calendar'' 1 True],
        totalDays = 19, bw_cost = 150, optimizations = []\<rparr>
     else None)"

subsection \<open>Utility methods\<close>

definition getStepDependencies :: "string \<Rightarrow> string list" where
  "getStepDependencies stepId =
    (if stepId = ''name_check'' then []
     else if stepId = ''name_reservation'' then [''name_check'']
     else if stepId = ''registered_agent'' then [''name_check'']
     else if stepId = ''articles_prep'' then [''name_check'', ''registered_agent'']
     else if stepId = ''articles_filing'' then [''articles_prep'']
     else if stepId = ''ein_application'' then [''articles_filing'']
     else if stepId = ''operating_agreement'' then [''ein_application'']
     else if stepId = ''business_licenses'' then [''articles_filing'']
     else if stepId = ''compliance_setup'' then [''articles_filing'']
     else [])"

definition getStepAutomation :: "string \<Rightarrow> string \<Rightarrow> bool \<times> string" where
  "getStepAutomation stepId st =
    (if stepId = ''name_check'' then (True, ''api_call'')
     else if stepId = ''articles_prep'' then (True, ''document_generation'')
     else if stepId = ''ein_application'' then (True, ''document_generation'')
     else if stepId = ''operating_agreement'' then (True, ''ai_generation'')
     else if stepId = ''compliance_setup'' then (True, ''calendar_generation'')
     else (False, ''manual''))"

text \<open>\<^verbatim>\<open>workflow.steps.find(s => s.id === stepId)\<close>: the first step with that id.\<close>

definition findStep :: "workflow \<Rightarrow> string \<Rightarrow> step option" where
  "findStep flow stepId = find (\<lambda>s. step_id s = stepId) (steps flow)"

text \<open>
  The loop of \<^verbatim>\<open>checkStepDependencies\<close>: the dependencies come from the static table,
  and one that is absent from the workflow counts as missing.
\<close>

definition depUnmet :: "workflow \<Rightarrow> string \<Rightarrow> bool" where
  "depUnmet flow depId =
    (case findStep flow depId of None \<Rightarrow> True | Some depStep \<Rightarrow> status depStep \<noteq> Completed)"

definition checkStepDependencies :: "workflow \<Rightarrow> string \<Rightarrow> bool \<times> string list" where
  "checkStepDependencies flow stepId =
    (let missing = filter (depUnmet flow) (getStepDependencies stepId)
     in (missing = [], missing))"

definition getNextPendingStep :: "workflow \<Rightarrow> string option" where
  "getNextPendingStep flow = map_option step_id (find (\<lambda>s. status s = Pending) (steps flow))"

text \<open>
  Assignments through the reference \<^verbatim>\<open>step\<close> returned by \<^verbatim>\<open>find\<close> change the first
  step with that id inside \<^verbatim>\<open>workflow.steps\<close>.
\<close>

fun update_step :: "string \<Rightarrow> (step \<Rightarrow> step) \<Rightarrow> step list \<Rightarrow> step list" where
  "update_step sid f [] = []"
| "update_step sid f (s # ss) =
     (if step_id s = sid then f s # ss else s # update_step sid f ss)"

subsection \<open>Creating a workflow\<close>

text \<open>
  \<^verbatim>\<open>optimizeWorkflowWithAI\<close>: \<open>None\<close> is a failed or unparsable reply (the catch
  branch returns the base workflow); \<^verbatim>\<open>x || y\<close> takes \<open>y\<close> when \<open>x\<close> is missing or 0.
\<close>

definition optimizeWorkflowWithAI :: "base_workflow \<Rightarrow> ai_optimization option \<Rightarrow> base_workflow" where
  "optimizeWorkflowWithAI base reply =
    (case reply of
       None \<Rightarrow> base
     | Some ai \<Rightarrow>
         base\<lparr>bw_steps := (case ai_steps ai of Some ss \<Rightarrow> ss | None \<Rightarrow> bw_steps base),
              totalDays := (case ai_totalDays ai of
                              Some d \<Rightarrow> if d = 0 then totalDays base else d
                            | None \<Rightarrow> totalDays base),
              bw_cost := (case ai_cost ai of
                            Some c \<Rightarrow> if c = 0 then bw_cost base else c
                          | None \<Rightarrow> bw_cost base),
              optimizations := (case ai_optimizations ai of Some os \<Rightarrow> os | None \<Rightarrow> [])\<rparr>)"

definition instantiate_step :: "string \<Rightarrow> step_spec \<Rightarrow> step" where
  "instantiate_step st sp =
    \<lparr>step_id = spec_id sp, step_name = spec_name sp, duration = spec_duration sp,
     critical = spec_critical sp, status = Pending, startDate = None, completedDate = None,
     result = None, dependencies = getStepDependencies (spec_id sp),
     automation = getStepAutomation (spec_id sp) st\<rparr>"

definition createFormationWorkflow ::
  "ai_optimization option \<Rightarrow> timestamp \<Rightarrow> wf_world \<Rightarrow> formation_data
     \<Rightarrow> (string + string \<times> workflow) \<times> wf_world" where
  "createFormationWorkflow reply now w fd =
    (case stateWorkflows (fd_state fd) of
       None \<Rightarrow>
         (Inl (''Unsupported state: '' @ fd_state fd @ ''. Supported: FL, WY, IL''), w)
     | Some base \<Rightarrow>
        (let optimizedWorkflow = optimizeWorkflowWithAI base reply;
             workflowId = ''WF-'' @ fd_state fd @ ''-'' @ show_nat now;
             flow = \<lparr>wf_id = workflowId, businessName = fd_businessName fd,
                   wf_state = fd_state fd, wf_type = ''llc_formation'', wf_status = ''created'',
                   baseWorkflow = bw_name base,
                   steps = map (instantiate_step (fd_state fd)) (bw_steps optimizedWorkflow),
                   totalEstimatedDays = totalDays optimizedWorkflow,
                   totalEstimatedCost = bw_cost optimizedWorkflow,
                   createdDate = now,
                   nextAction = (case bw_steps optimizedWorkflow of
                                   [] \<Rightarrow> None | sp # _ \<Rightarrow> Some (spec_id sp)),
                   progress = 0,
                   smartOptimizations = optimizations optimizedWorkflow\<rparr>
         in (Inr (workflowId, flow),
             w\<lparr>workflows := (workflows w)(workflowId \<mapsto>
                    \<lparr>row_status = ''created'', workflow_data = flow, completed_at = None\<rparr>),
               wf_memory := wf_memory w @
                    [\<lparr>mem_type = ''workflow_creation'', mem_ref = workflowId,
                      mem_content = ''Intelligent workflow created for '' @ fd_businessName fd
                        @ '' LLC formation in '' @ fd_state fd\<rparr>],
               wf_chain := wf_chain w @ [workflowId]\<rparr>)))"

subsection \<open>Step execution methods\<close>

text \<open>
  Each executor returns \<open>Inr\<close> of its result, or \<open>Inl\<close> of the message of an exception
  that escapes it (the three document steps catch their own exceptions; the others have
  no handler, and reading \<^verbatim>\<open>this.stateWorkflows[workflow.state].cost\<close> throws for an
  unknown state).
\<close>

definition executeNameCheck :: "workflow \<Rightarrow> string + step_result" where
  "executeNameCheck flow =
    (let nameValid = (js_includes (toLowerCase (businessName flow)) ''llc'' \<or>
                      js_includes (toLowerCase (businessName flow)) ''limited liability company'')
     in if \<not> nameValid
        then Inr \<lparr>sr_success = False, sr_action = ''name_check'',
                  sr_error = Some ''Business name must include LLC or Limited Liability Company''\<rparr>
        else Inr \<lparr>sr_success = True, sr_action = ''name_check'', sr_error = None\<rparr>)"

definition executeDocumentStep :: "doc_engine \<Rightarrow> string \<Rightarrow> workflow \<Rightarrow> string + step_result" where
  "executeDocumentStep doc method flow =
    (case doc method (businessName flow) (wf_state flow) of
       DocReturned ok \<Rightarrow> Inr \<lparr>sr_success = ok, sr_action = method, sr_error = None\<rparr>
     | DocThrew msg \<Rightarrow> Inr \<lparr>sr_success = False, sr_action = method, sr_error = Some msg\<rparr>)"

definition executeArticlesPreparation :: "doc_engine \<Rightarrow> workflow \<Rightarrow> string + step_result" where
  "executeArticlesPreparation doc flow = executeDocumentStep doc ''generateStateSpecificArticles'' flow"

definition executeEINApplication :: "doc_engine \<Rightarrow> workflow \<Rightarrow> string + step_result" where
  "executeEINApplication doc flow = executeDocumentStep doc ''generateNationalEINForm'' flow"

definition executeOperatingAgreement :: "doc_engine \<Rightarrow> workflow \<Rightarrow> string + step_result" where
  "executeOperatingAgreement doc flow =
     executeDocumentStep doc ''generateNationalOperatingAgreement'' flow"

definition executeNameReservation :: "workflow \<Rightarrow> string + step_result" where
  "executeNameReservation flow =
     Inr \<lparr>sr_success = True, sr_action = ''name_reservation'', sr_error = None\<rparr>"

definition executeRegisteredAgent :: "workflow \<Rightarrow> step_data \<Rightarrow> string + step_result" where
  "executeRegisteredAgent flow sd =
     Inr \<lparr>sr_success = True, sr_action = ''registered_agent'', sr_error = None\<rparr>"

definition executeArticlesFiling :: "workflow \<Rightarrow> string + step_result" where
  "executeArticlesFiling flow =
    (case stateWorkflows (wf_state flow) of
       None \<Rightarrow> Inl ''Cannot read properties of undefined (reading cost)''
     | Some _ \<Rightarrow> Inr \<lparr>sr_success = True, sr_action = ''articles_filing'', sr_error = None\<rparr>)"

definition executeBusinessLicenses :: "workflow \<Rightarrow> string + step_result" where
  "executeBusinessLicenses flow =
     Inr \<lparr>sr_success = True, sr_action = ''business_licenses'', sr_error = None\<rparr>"

definition executeComplianceSetup :: "workflow \<Rightarrow> string + step_result" where
  "executeComplianceSetup flow =
    (case stateWorkflows (wf_state flow) of
       None \<Rightarrow> Inl ''Cannot read properties of undefined (reading requirements)''
     | Some _ \<Rightarrow> Inr \<lparr>sr_success = True, sr_action = ''compliance_setup'', sr_error = None\<rparr>)"

text \<open>The \<^verbatim>\<open>switch (stepId)\<close>: \<open>None\<close> is the default branch, which throws.\<close>

definition stepExecutor ::
  "string \<Rightarrow> (doc_engine \<Rightarrow> workflow \<Rightarrow> step_data \<Rightarrow> string + step_result) option" where
  "stepExecutor stepId =
    (if stepId = ''name_check'' then Some (\<lambda>doc flow sd. executeNameCheck flow)
     else if stepId = ''name_reservation'' then Some (\<lambda>doc flow sd. executeNameReservation flow)
     else if stepId = ''registered_agent'' then Some (\<lambda>doc flow sd. executeRegisteredAgent flow sd)
     else if stepId = ''articles_prep'' then Some (\<lambda>doc flow sd. executeArticlesPreparation doc flow)
     else if stepId = ''articles_filing'' then Some (\<lambda>doc flow sd. executeArticlesFiling flow)
     else if stepId = ''ein_application'' then Some (\<lambda>doc flow sd. executeEINApplication doc flow)
     else if stepId = ''operating_agreement'' then Some (\<lambda>doc flow sd. executeOperatingAgreement doc flow)
     else if stepId = ''business_licenses'' then Some (\<lambda>doc flow sd. executeBusinessLicenses flow)
     else if stepId = ''compliance_setup'' then Some (\<lambda>doc flow sd. executeComplianceSetup flow)
     else None)"

subsection \<open>Executing a step\<close>

text \<open>
  The four ways \<^verbatim>\<open>executeWorkflowStep\<close> returns: through the catch block, through the
  "already completed" guard, through the dependency guard, or after running the step
  (\<^verbatim>\<open>stepResult\<close>, \<^verbatim>\<open>workflowProgress\<close>, \<^verbatim>\<open>nextAction\<close>, \<^verbatim>\<open>workflowCompleted\<close>).
\<close>

datatype exec_outcome =
    ExecError string
  | AlreadyCompleted "step_result option"
  | DependenciesNotCompleted "string list"
  | StepExecuted step_result rat "string option" bool

definition completedCount :: "workflow \<Rightarrow> nat" where
  "completedCount flow = length (filter (\<lambda>s. status s = Completed) (steps flow))"

definition progressOf :: "workflow \<Rightarrow> rat" where
  "progressOf flow = (of_nat (completedCount flow) / of_nat (length (steps flow))) * 100"

definition completeWorkflow :: "timestamp \<Rightarrow> wf_world \<Rightarrow> string \<Rightarrow> workflow \<Rightarrow> wf_world" where
  "completeWorkflow now w workflowId flow =
     w\<lparr>workflows :=
          (case workflows w workflowId of
             None \<Rightarrow> workflows w
           | Some row \<Rightarrow> (workflows w)(workflowId \<mapsto>
               row\<lparr>row_status := ''completed'', completed_at := Some now\<rparr>)),
       wf_memory := wf_memory w @
          [\<lparr>mem_type = ''workflow_completion'', mem_ref = workflowId,
            mem_content = ''LLC formation workflow completed for '' @ businessName flow
              @ '' in '' @ wf_state flow\<rparr>]\<rparr>"

definition markInProgress :: "timestamp \<Rightarrow> string \<Rightarrow> workflow \<Rightarrow> workflow" where
  "markInProgress now stepId flow =
     flow\<lparr>steps := update_step stepId
           (\<lambda>s. s\<lparr>status := InProgress, startDate := Some now\<rparr>) (steps flow)\<rparr>"

definition recordResult :: "timestamp \<Rightarrow> string \<Rightarrow> step_result \<Rightarrow> workflow \<Rightarrow> workflow" where
  "recordResult now stepId res flow =
    (let flow1 = flow\<lparr>steps := update_step stepId
                  (\<lambda>s. s\<lparr>status := (if sr_success res then Completed else Failed),
                          completedDate := Some now, result := Some res\<rparr>) (steps flow)\<rparr>;
         flow2 = flow1\<lparr>progress := progressOf flow1\<rparr>
     in flow2\<lparr>nextAction := getNextPendingStep flow2\<rparr>)"

text \<open>
  \<^verbatim>\<open>executeWorkflowStep\<close> is given in the two halves between which the source awaits
  the step's executor. The first half loads the workflow, applies the guards and marks
  the step in progress; the mark is made in the workflow object just loaded, not in the
  table. \<open>Inl\<close> is an early return.
\<close>

definition reserveStep ::
  "timestamp \<Rightarrow> wf_world \<Rightarrow> string \<Rightarrow> string \<Rightarrow> exec_outcome + wf_row \<times> workflow" where
  "reserveStep now w workflowId stepId =
    (case workflows w workflowId of
       None \<Rightarrow> Inl (ExecError ''Workflow not found'')
     | Some row \<Rightarrow>
        (let flow = workflow_data row in
         case findStep flow stepId of
           None \<Rightarrow> Inl (ExecError ''Step not found in workflow'')
         | Some st \<Rightarrow>
             if status st = Completed then Inl (AlreadyCompleted (result st))
             else
               (let (allCompleted, missing) = checkStepDependencies flow stepId in
                if \<not> allCompleted then Inl (DependenciesNotCompleted missing)
                else Inr (row, markInProgress now stepId flow))))"

text \<open>
  The second half runs the executor on the marked workflow, records the result and the
  progress, writes the workflow back to the table and completes the workflow when the
  progress is 100. An exception (unknown step, or one escaping the executor) ends in the
  catch block before anything is written.
\<close>

definition runReserved ::
  "doc_engine \<Rightarrow> timestamp \<Rightarrow> wf_world \<Rightarrow> string \<Rightarrow> string \<Rightarrow> step_data
     \<Rightarrow> wf_row \<times> workflow \<Rightarrow> exec_outcome \<times> wf_world" where
  "runReserved doc now w workflowId stepId stepData reserved =
    (let (row, marked) = reserved in
     case stepExecutor stepId of
       None \<Rightarrow> (ExecError (''Unknown step type: '' @ stepId), w)
     | Some run \<Rightarrow>
        (let w1 = w\<lparr>executor_calls := executor_calls w @
                     [\<lparr>ec_workflow = workflowId, ec_step = stepId,
                       ec_status = map_option status (findStep marked stepId)\<rparr>]\<rparr>
         in case run doc marked stepData of
              Inl msg \<Rightarrow> (ExecError msg, w1)
            | Inr res \<Rightarrow>
               (let final = recordResult now stepId res marked;
                    w2 = w1\<lparr>workflows := (workflows w1)(workflowId \<mapsto>
                              row\<lparr>workflow_data := final\<rparr>),
                            wf_memory := wf_memory w1 @
                              [\<lparr>mem_type = ''workflow_step_execution'',
                                mem_ref = workflowId,
                                mem_content = ''Workflow step '' @ [CHR 0x27]
                                  @ (case findStep marked stepId of
                                       Some st \<Rightarrow> step_name st | None \<Rightarrow> [])
                                  @ [CHR 0x27]
                                  @ (if sr_success res then '' completed'' else '' failed'')
                                  @ '' for '' @ businessName marked\<rparr>]\<rparr>;
                    w3 = (if progress final = 100
                          then completeWorkflow now w2 workflowId final else w2)
                in (StepExecuted res (progress final) (nextAction final)
                      (progress final = 100), w3))))"

definition executeWorkflowStep ::
  "doc_engine \<Rightarrow> timestamp \<Rightarrow> wf_world \<Rightarrow> string \<Rightarrow> string \<Rightarrow> step_data
     \<Rightarrow> exec_outcome \<times> wf_world" where
  "executeWorkflowStep doc now w workflowId stepId stepData =
    (case reserveStep now w workflowId stepId of
       Inl early \<Rightarrow> (early, w)
     | Inr reserved \<Rightarrow> runReserved doc now w workflowId stepId stepData reserved)"


section \<open>The compliance and revenue engine (compliance\_revenue\_engine.js)\<close>

subsection \<open>JavaScript dates\<close>

text \<open>
  A \<^verbatim>\<open>Date\<close> is its time value: milliseconds since 1970-01-01T00:00:00Z. The string
  produced by \<^verbatim>\<open>toISOString()\<close> and read back by \<^verbatim>\<open>new Date(string)\<close> denotes the same
  time value, so a stored \<^verbatim>\<open>dueDate\<close> is modelled by it. \<^verbatim>\<open>getFullYear\<close>, \<^verbatim>\<open>getMonth\<close>,
  \<^verbatim>\<open>setFullYear\<close> and \<^verbatim>\<open>new Date(year, month, day)\<close> work in local time, which is the time
  value plus the offset \<open>tz\<close> of the host's zone (taken as constant).

  Day numbers and civil dates of the proleptic Gregorian calendar are converted by the
  usual era-based computation (months 1 to 12 here).
\<close>

type_synonym time_value = int

definition msPerDay :: int where
  "msPerDay = 1000 * 60 * 60 * 24"

definition days_from_civil :: "int \<Rightarrow> int \<Rightarrow> int \<Rightarrow> int" where
  "days_from_civil y m d =
    (let y' = (if m \<le> 2 then y - 1 else y);
         era = y' div 400;
         yoe = y' - era * 400;
         mp = (m + 9) mod 12;
         doy = (153 * mp + 2) div 5 + d - 1;
         doe = yoe * 365 + yoe div 4 - yoe div 100 + doy
     in era * 146097 + doe - 719468)"

definition civil_from_days :: "int \<Rightarrow> int \<times> int \<times> int" where
  "civil_from_days z =
    (let z' = z + 719468;
         era = z' div 146097;
         doe = z' - era * 146097;
         yoe = (doe - doe div 1460 + doe div 36524 - doe div 146096) div 365;
         y = yoe + era * 400;
         doy = doe - (365 * yoe + yoe div 4 - yoe div 100);
         mp = (5 * doy + 2) div 153;
         d = doy - (153 * mp + 2) div 5 + 1;
         m = (if mp < 10 then mp + 3 else mp - 9)
     in (if m \<le> 2 then y + 1 else y, m, d))"

text \<open>
  \<^verbatim>\<open>new Date(year, monthIndex, day)\<close>: local midnight of that day. A month index outside
  0..11 carries into the year, a day outside the month carries into the next month, and
  a year from 0 to 99 means 1900 + year.
\<close>

definition jsDate :: "int \<Rightarrow> int \<Rightarrow> int \<Rightarrow> int \<Rightarrow> time_value" where
  "jsDate tz year monthIndex day =
    (let y = (if 0 \<le> year \<and> year \<le> 99 then 1900 + year else year);
         ym = y + monthIndex div 12;
         mn = monthIndex mod 12
     in (days_from_civil ym (mn + 1) 1 + day - 1) * msPerDay - tz)"

definition getFullYear :: "int \<Rightarrow> time_value \<Rightarrow> int" where
  "getFullYear tz t = fst (civil_from_days ((t + tz) div msPerDay))"

definition getMonth :: "int \<Rightarrow> time_value \<Rightarrow> int" where
  "getMonth tz t = fst (snd (civil_from_days ((t + tz) div msPerDay))) - 1"

definition getDate :: "int \<Rightarrow> time_value \<Rightarrow> int" where
  "getDate tz t = snd (snd (civil_from_days ((t + tz) div msPerDay)))"

text \<open>\<^verbatim>\<open>date.setFullYear(year)\<close>: the local month, day and time of day are kept.\<close>

definition setFullYear :: "int \<Rightarrow> time_value \<Rightarrow> int \<Rightarrow> time_value" where
  "setFullYear tz t year =
    (days_from_civil year (getMonth tz t + 1) 1 + getDate tz t - 1) * msPerDay
       + (t + tz) mod msPerDay - tz"

definition show_int :: "int \<Rightarrow> string" where
  "show_int i = (if i < 0 then CHR ''-'' # show_nat (nat (- i)) else show_nat (nat i))"

subsection \<open>Data\<close>

record tax_obligation =
  tax_type :: string
  frequency :: string
  tax_rate :: string

text \<open>
  The part of a state's entry in \<^verbatim>\<open>complianceRequirements\<close> that the engine reads.
\<close>

record state_requirements =
  req_name :: string
  annualReport_required :: bool
  annualReport_fee :: rat
  annualReport_penalty :: rat
  businessLicense_required :: bool
  businessLicense_renewal :: string
  businessLicense_averageFee :: rat
  taxObligations :: "tax_obligation list"
  registeredAgent_annualCost :: rat

text \<open>
  A compliance event as the event creation methods build it. The source gives an event
  no \<^verbatim>\<open>status\<close> field, and no method of the engine reads or writes one. \<^verbatim>\<open>details\<close>
  is absent from annual report events; where present it is a small object of strings.
  The descriptive texts of an annual report event (\<^verbatim>\<open>description\<close>, \<^verbatim>\<open>requirements\<close>,
  \<^verbatim>\<open>consequences\<close>) are never read and are left out.
\<close>

record compliance_event =
  ev_id :: string
  ev_type :: string
  title :: string
  dueDate :: time_value
  cost :: rat
  penalty :: rat
  ev_critical :: bool
  automatable :: bool
  automationTrigger :: int
  revenueOpportunity :: rat
  details :: "(string \<times> string) list option"

record calendar =
  cal_id :: string
  cal_businessName :: string
  cal_state :: string
  ein :: string
  formationDate :: time_value
  businessType :: string
  events :: "compliance_event list"
  totalEvents :: nat
  annualComplianceCost :: rat
  cal_createdDate :: time_value
  nextDueEvent :: "string option"

record company_data =
  cd_businessName :: string
  cd_state :: string
  cd_formationDate :: "time_value option"
  cd_ein :: string
  cd_businessType :: string

text \<open>
  The table of calendars, the memory system and the evidence chain.
\<close>

record comp_world =
  calendars :: "string \<rightharpoonup> calendar"
  comp_memory :: "memory_entry list"
  comp_chain :: "string list"

text \<open>What \<^verbatim>\<open>executeAutomatedCompliance\<close> returns for one event.\<close>

record automation_result =
  ar_eventId :: string
  ar_eventType :: "string option"
  ar_success :: bool
  ar_action :: string
  ar_revenue :: rat

record compliance_report =
  rep_calendarId :: string
  rep_status :: string
  upcomingEvents :: "(compliance_event \<times> int) list"
  overdueEvents :: "(compliance_event \<times> int) list"
  actionableEvents :: "compliance_event list"

record monitor_result =
  complianceReport :: compliance_report
  automationResults :: "automation_result list"
  revenueGenerated :: rat

subsection \<open>The tables of the constructor\<close>

definition complianceRequirements :: "string \<Rightarrow> state_requirements option" where
  "complianceRequirements st =
    (if st = ''FL'' then Some
       \<lparr>req_name = ''Florida'', annualReport_required = True, annualReport_fee = 138.75,
        annualReport_penalty = 400, businessLicense_required = True,
        businessLicense_renewal = ''Annual'', businessLicense_averageFee = 50,
        taxObligations =
          [\<lparr>tax_type = ''Sales Tax'', frequency = ''Monthly'', tax_rate = ''6%''\<rparr>,
           \<lparr>tax_type = ''Reemployment Tax'', frequency = ''Quarterly'', tax_rate = ''Variable''\<rparr>],
        registeredAgent_annualCost = 199\<rparr>
     else if st = ''WY'' then Some
       \<lparr>req_name = ''Wyoming'', annualReport_required = True, annualReport_fee = 60,
        annualReport_penalty = 25, businessLicense_required = False,
        businessLicense_renewal = ''Varies by business type'', businessLicense_averageFee = 25,
        taxObligations =
          [\<lparr>tax_type = ''Sales Tax'', frequency = ''Monthly/Quarterly'', tax_rate = ''4%''\<rparr>],
        registeredAgent_annualCost = 149\<rparr>
     else if st = ''IL'' then Some
       \<lparr>req_name = ''Illinois'', annualReport_required = True, annualReport_fee = 75,
        annualReport_penalty = 100, businessLicense_required = True,
        businessLicense_renewal = ''Annual'', businessLicense_averageFee = 75,
        taxObligations =
          [\<lparr>tax_type = ''Income Tax'', frequency = ''Annual'', tax_rate = ''9.5%''\<rparr>,
           \<lparr>tax_type = ''Sales Tax'', frequency = ''Monthly'', tax_rate = ''6.25%''\<rparr>],
        registeredAgent_annualCost = 199\<rparr>
     else None)"

text \<open>The prices of \<^verbatim>\<open>revenueServices.ongoing\<close> that the engine reads.\<close>

definition annualReportFiling_price :: rat where
  "annualReportFiling_price = 149"

definition registeredAgent_price :: rat where
  "registeredAgent_price = 199"

definition taxPreparation_price :: rat where
  "taxPreparation_price = 299"

subsection \<open>Event creation methods\<close>

definition createAnnualReportEvent ::
  "int \<Rightarrow> state_requirements \<Rightarrow> string \<Rightarrow> int \<Rightarrow> time_value \<Rightarrow> compliance_event" where
  "createAnnualReportEvent tz stateReqs st year fDate =
    (let formationMonth = getMonth tz fDate;
         due = (if st = ''FL'' then jsDate tz year 4 1 else jsDate tz year formationMonth 15)
     in \<lparr>ev_id = ''AR-'' @ st @ ''-'' @ show_int year,
         ev_type = ''annual_report'',
         title = st @ '' Annual Report Filing'',
         dueDate = due,
         cost = annualReport_fee stateReqs,
         penalty = annualReport_penalty stateReqs,
         ev_critical = True,
         automatable = True,
         automationTrigger = 45,
         revenueOpportunity = annualReportFiling_price,
         details = None\<rparr>)"

definition createTaxEvents :: "int \<Rightarrow> tax_obligation \<Rightarrow> int \<Rightarrow> compliance_event list" where
  "createTaxEvents tz taxObligation year =
    (if frequency taxObligation = ''Monthly'' then
       map (\<lambda>month.
           \<lparr>ev_id = ''TAX-'' @ tax_type taxObligation @ ''-'' @ show_int year @ ''-''
                      @ show_nat (month + 1),
            ev_type = ''tax_filing'',
            title = tax_type taxObligation @ '' Filing'',
            dueDate = jsDate tz year (int month + 1) 20,
            cost = 0, penalty = 50, ev_critical = True, automatable = True,
            automationTrigger = 30,
            revenueOpportunity = taxPreparation_price / 12,
            details = Some [(''taxType'', tax_type taxObligation), (''period'', ''monthly''),
                            (''rate'', tax_rate taxObligation)]\<rparr>) [0..<12]
     else if frequency taxObligation = ''Quarterly'' then
       map (\<lambda>quarter.
           \<lparr>ev_id = ''TAX-'' @ tax_type taxObligation @ ''-'' @ show_int year @ ''-Q''
                      @ show_nat (quarter + 1),
            ev_type = ''tax_filing'',
            title = tax_type taxObligation @ '' Quarterly Filing'',
            dueDate = jsDate tz year ((int quarter + 1) * 3) 15,
            cost = 0, penalty = 100, ev_critical = True, automatable = True,
            automationTrigger = 45,
            revenueOpportunity = taxPreparation_price / 4,
            details = Some [(''taxType'', tax_type taxObligation), (''period'', ''quarterly''),
                            (''rate'', tax_rate taxObligation)]\<rparr>) [0..<4]
     else if frequency taxObligation = ''Annual'' then
       [\<lparr>ev_id = ''TAX-'' @ tax_type taxObligation @ ''-'' @ show_int year,
         ev_type = ''tax_filing'',
         title = tax_type taxObligation @ '' Annual Return'',
         dueDate = jsDate tz (year + 1) 2 15,
         cost = 0, penalty = 200, ev_critical = True, automatable = True,
         automationTrigger = 60,
         revenueOpportunity = taxPreparation_price,
         details = Some [(''taxType'', tax_type taxObligation), (''period'', ''annual''),
                         (''rate'', tax_rate taxObligation)]\<rparr>]
     else [])"

definition createBusinessLicenseEvent ::
  "int \<Rightarrow> state_requirements \<Rightarrow> string \<Rightarrow> int \<Rightarrow> compliance_event" where
  "createBusinessLicenseEvent tz stateReqs st year =
     \<lparr>ev_id = ''LIC-'' @ st @ ''-'' @ show_int year,
      ev_type = ''license_renewal'',
      title = ''Business License Renewal'',
      dueDate = jsDate tz year 11 31,
      cost = businessLicense_averageFee stateReqs,
      penalty = 25, ev_critical = False, automatable = True,
      automationTrigger = 60,
      revenueOpportunity = 149,
      details = Some [(''licenseType'', ''general_business''),
                      (''renewal'', businessLicense_renewal stateReqs)]\<rparr>"

definition createRegisteredAgentEvent ::
  "int \<Rightarrow> state_requirements \<Rightarrow> string \<Rightarrow> int \<Rightarrow> time_value \<Rightarrow> compliance_event" where
  "createRegisteredAgentEvent tz stateReqs st year fDate =
     \<lparr>ev_id = ''RA-'' @ st @ ''-'' @ show_int year,
      ev_type = ''registered_agent'',
      title = ''Registered Agent Service Renewal'',
      dueDate = setFullYear tz fDate year,
      cost = registeredAgent_annualCost stateReqs,
      penalty = 0, ev_critical = True, automatable = True,
      automationTrigger = 30,
      revenueOpportunity = registeredAgent_price,
      details = Some [(''agentName'', ''CloudEsq Registered Agent Services''), (''state'', st)]\<rparr>"

definition createFederalTaxEvents :: "int \<Rightarrow> int \<Rightarrow> string \<Rightarrow> compliance_event list" where
  "createFederalTaxEvents tz year bType =
     \<lparr>ev_id = ''FED-INCOME-'' @ show_int year,
      ev_type = ''tax_filing'',
      title = ''Federal Income Tax Return'',
      dueDate = jsDate tz (year + 1) 2 15,
      cost = 0, penalty = 195, ev_critical = True, automatable = True,
      automationTrigger = 60,
      revenueOpportunity = taxPreparation_price,
      details = Some [(''taxType'', ''federal_income''), (''period'', ''annual''),
                      (''form'', ''1065'')]\<rparr>
     # map (\<lambda>quarter.
           \<lparr>ev_id = ''FED-EST-'' @ show_int year @ ''-Q'' @ show_nat (quarter + 1),
            ev_type = ''tax_filing'',
            title = ''Federal Estimated Tax Payment'',
            dueDate = jsDate tz year (int quarter * 3 + 3) 15,
            cost = 0, penalty = 50, ev_critical = False, automatable = True,
            automationTrigger = 30,
            revenueOpportunity = 75,
            details = Some [(''taxType'', ''estimated_tax''), (''period'', ''quarterly'')]\<rparr>)
         [0..<4]"

subsection \<open>Creating a calendar\<close>

text \<open>The body of the loop over the years: the events pushed for one year, in order.\<close>

definition eventsForYear ::
  "int \<Rightarrow> state_requirements \<Rightarrow> string \<Rightarrow> time_value \<Rightarrow> string \<Rightarrow> int \<Rightarrow> compliance_event list" where
  "eventsForYear tz stateRequirements st fDate bType year =
     (if annualReport_required stateRequirements
      then [createAnnualReportEvent tz stateRequirements st year fDate] else [])
     @ concat (map (\<lambda>taxObligation. createTaxEvents tz taxObligation year)
                (taxObligations stateRequirements))
     @ (if businessLicense_required stateRequirements
        then [createBusinessLicenseEvent tz stateRequirements st year] else [])
     @ [createRegisteredAgentEvent tz stateRequirements st year fDate]
     @ createFederalTaxEvents tz year bType"

text \<open>
  The loop \<^verbatim>\<open>for (let year = currentYear; year <= currentYear + 2; year++)\<close>: three
  years, starting with the year of the clock at generation time.
\<close>

definition generateComplianceEvents ::
  "int \<Rightarrow> state_requirements \<Rightarrow> string \<Rightarrow> time_value \<Rightarrow> string \<Rightarrow> int \<Rightarrow> compliance_event list" where
  "generateComplianceEvents tz stateRequirements st fDate bType currentYear =
     concat (map (eventsForYear tz stateRequirements st fDate bType)
               [currentYear, currentYear + 1, currentYear + 2])"

definition calculateAnnualComplianceCost :: "compliance_event list \<Rightarrow> rat" where
  "calculateAnnualComplianceCost evs = sum_list (map cost (filter (\<lambda>e. cost e > 0) evs))"

text \<open>
  \<^verbatim>\<open>createComplianceCalendar\<close>. An unknown state throws before anything is built; a
  formation date that does not parse (\<open>None\<close>) makes \<^verbatim>\<open>toISOString\<close> throw inside the
  first iteration; both end in the catch block. \<^verbatim>\<open>Array.prototype.sort\<close> is stable, and
  the comparator orders by time value.
\<close>

definition createComplianceCalendar ::
  "int \<Rightarrow> time_value \<Rightarrow> comp_world \<Rightarrow> company_data \<Rightarrow> (string + string \<times> calendar) \<times> comp_world" where
  "createComplianceCalendar tz now w cd =
    (case complianceRequirements (cd_state cd) of
       None \<Rightarrow>
         (Inl (''Compliance requirements not available for state: '' @ cd_state cd), w)
     | Some stateRequirements \<Rightarrow>
        (case cd_formationDate cd of
           None \<Rightarrow> (Inl ''Invalid time value'', w)
         | Some fDate \<Rightarrow>
            (let calendarId = ''COMP-'' @ cd_state cd @ ''-'' @ show_int now;
                 currentYear = getFullYear tz now;
                 complianceEvents = sort_key dueDate
                    (generateComplianceEvents tz stateRequirements (cd_state cd) fDate
                       (cd_businessType cd) currentYear);
                 complianceCalendar =
                   \<lparr>cal_id = calendarId, cal_businessName = cd_businessName cd,
                    cal_state = cd_state cd, ein = cd_ein cd, formationDate = fDate,
                    businessType = cd_businessType cd, events = complianceEvents,
                    totalEvents = length complianceEvents,
                    annualComplianceCost = calculateAnnualComplianceCost complianceEvents,
                    cal_createdDate = now,
                    nextDueEvent = map_option ev_id
                       (find (\<lambda>event. dueDate event > now) complianceEvents)\<rparr>
             in (Inr (calendarId, complianceCalendar),
                 w\<lparr>calendars := (calendars w)(calendarId \<mapsto> complianceCalendar),
                   comp_memory := comp_memory w @
                     [\<lparr>mem_type = ''compliance_calendar_creation'', mem_ref = calendarId,
                       mem_content = ''Compliance calendar created for '' @ cd_businessName cd
                          @ '' with '' @ show_nat (length complianceEvents)
                          @ '' events over 3 years''\<rparr>],
                   comp_chain := comp_chain w @ [calendarId]\<rparr>))))"

subsection \<open>Automated compliance actions\<close>

text \<open>
  The four \<^verbatim>\<open>automate...\<close> methods. Three of them read a field of \<^verbatim>\<open>event.details\<close>,
  which throws when the event has no details; each method catches its own exception and
  reports failure with revenue 0.
\<close>

definition automateAnnualReport :: "compliance_event \<Rightarrow> calendar \<Rightarrow> bool \<times> string \<times> rat" where
  "automateAnnualReport event cal = (True, ''annual_report_prepared'', annualReportFiling_price)"

definition automateTaxFiling :: "compliance_event \<Rightarrow> calendar \<Rightarrow> bool \<times> string \<times> rat" where
  "automateTaxFiling event cal =
    (case details event of
       None \<Rightarrow> (False, ''error'', 0)
     | Some _ \<Rightarrow> (True, ''tax_filing_prepared'', taxPreparation_price))"

definition automateLicenseRenewal :: "compliance_event \<Rightarrow> calendar \<Rightarrow> bool \<times> string \<times> rat" where
  "automateLicenseRenewal event cal =
    (case details event of
       None \<Rightarrow> (False, ''error'', 0)
     | Some _ \<Rightarrow> (True, ''license_renewal_prepared'', 149))"

definition automateRegisteredAgentRenewal ::
  "compliance_event \<Rightarrow> calendar \<Rightarrow> bool \<times> string \<times> rat" where
  "automateRegisteredAgentRenewal event cal =
    (case details event of
       None \<Rightarrow> (False, ''error'', 0)
     | Some _ \<Rightarrow> (True, ''registered_agent_renewal_prepared'', registeredAgent_price))"

text \<open>The \<^verbatim>\<open>switch (event.type)\<close> of \<^verbatim>\<open>executeAutomatedCompliance\<close>.\<close>

definition automationOutcome :: "compliance_event \<Rightarrow> calendar \<Rightarrow> bool \<times> string \<times> rat" where
  "automationOutcome event cal =
    (if ev_type event = ''annual_report'' then automateAnnualReport event cal
     else if ev_type event = ''tax_filing'' then automateTaxFiling event cal
     else if ev_type event = ''license_renewal'' then automateLicenseRenewal event cal
     else if ev_type event = ''registered_agent'' then automateRegisteredAgentRenewal event cal
     else (False, ''unsupported'', 0))"

text \<open>
  \<^verbatim>\<open>executeAutomatedCompliance\<close>: the switch, one entry in the memory system, and the
  result. The event and the calendar are only read.
\<close>

definition executeAutomatedCompliance ::
  "comp_world \<Rightarrow> compliance_event \<Rightarrow> calendar \<Rightarrow> automation_result \<times> comp_world" where
  "executeAutomatedCompliance w event cal =
    (let outcome = automationOutcome event cal
     in (\<lparr>ar_eventId = ev_id event, ar_eventType = Some (ev_type event),
          ar_success = fst outcome, ar_action = fst (snd outcome),
          ar_revenue = snd (snd outcome)\<rparr>,
         w\<lparr>comp_memory := comp_memory w @
              [\<lparr>mem_type = ''automated_compliance_execution'', mem_ref = cal_id cal,
                mem_content = ''Automated compliance action executed for ''
                   @ cal_businessName cal @ '': '' @ ev_type event\<rparr>]\<rparr>))"

subsection \<open>Monitoring\<close>

text \<open>
  \<^verbatim>\<open>Math.ceil((eventDate - today) / (1000 * 60 * 60 * 24))\<close>. Both dates are integers,
  so the ceiling of the quotient is the negated floor of the negated quotient.
\<close>

definition daysUntilDue :: "time_value \<Rightarrow> time_value \<Rightarrow> int" where
  "daysUntilDue eventDate today = - ((today - eventDate) div msPerDay)"

text \<open>
  The classification loop of \<^verbatim>\<open>monitorCompliance\<close>: every event is pushed, in calendar
  order, to the lists its tests select.
\<close>

fun classifyEvents ::
  "time_value \<Rightarrow> compliance_event list
     \<Rightarrow> (compliance_event \<times> int) list \<times> (compliance_event \<times> int) list \<times> compliance_event list" where
  "classifyEvents today [] = ([], [], [])"
| "classifyEvents today (event # rest) =
    (let (upcoming, overdue, actionable) = classifyEvents today rest;
         d = daysUntilDue (dueDate event) today
     in ((if \<not> d < 0 \<and> d \<le> 30 then (event, d) # upcoming else upcoming),
         (if d < 0 then (event, \<bar>d\<bar>) # overdue else overdue),
         (if automatable event \<and> d \<le> automationTrigger event
          then event # actionable else actionable)))"

text \<open>The loop "Execute automated actions": one call per actionable event, in order.\<close>

fun runAutomation ::
  "calendar \<Rightarrow> comp_world \<Rightarrow> compliance_event list \<Rightarrow> automation_result list \<times> comp_world" where
  "runAutomation cal w [] = ([], w)"
| "runAutomation cal w (event # rest) =
    (let (r, w1) = executeAutomatedCompliance w event cal;
         (rs, w2) = runAutomation cal w1 rest
     in (r # rs, w2))"

definition calculateGeneratedRevenue :: "automation_result list \<Rightarrow> rat" where
  "calculateGeneratedRevenue rs = sum_list (map ar_revenue rs)"

text \<open>
  \<^verbatim>\<open>monitorCompliance\<close>, with the clock reading \<open>now\<close> as \<^verbatim>\<open>today\<close>. The texts of the
  report (recommendations, ranked revenue opportunities) are left out; they are computed
  from the two lists of the report and change nothing.
\<close>

definition monitorCompliance ::
  "time_value \<Rightarrow> comp_world \<Rightarrow> string \<Rightarrow> (string + monitor_result) \<times> comp_world" where
  "monitorCompliance now w calendarId =
    (case calendars w calendarId of
       None \<Rightarrow> (Inl ''Compliance calendar not found'', w)
     | Some cal \<Rightarrow>
        (let (upcoming, overdue, actionable) = classifyEvents now (events cal);
             report = \<lparr>rep_calendarId = calendarId,
                       rep_status = (if length overdue > 0 then ''NON_COMPLIANT''
                                     else if length upcoming > 0 then ''ACTION_REQUIRED''
                                     else ''COMPLIANT''),
                       upcomingEvents = upcoming, overdueEvents = overdue,
                       actionableEvents = actionable\<rparr>;
             w1 = w\<lparr>comp_memory := comp_memory w @
                     [\<lparr>mem_type = ''compliance_monitoring'', mem_ref = calendarId,
                       mem_content = ''Compliance monitoring completed for ''
                          @ cal_businessName cal @ '': '' @ rep_status report\<rparr>]\<rparr>;
             (results, w2) = runAutomation cal w1 actionable
         in (Inr \<lparr>complianceReport = report, automationResults = results,
                  revenueGenerated = calculateGeneratedRevenue results\<rparr>, w2)))"


section \<open>Notions used in the statements\<close>

subsection \<open>Workflows the engine can hold\<close>

text \<open>
  The invariant of a stored workflow. It holds of every workflow that
  \<^verbatim>\<open>createFormationWorkflow\<close> stores and is kept by every call of \<^verbatim>\<open>executeWorkflowStep\<close>
  (both are proved below): the stored progress is the quotient, every step carries the
  dependencies of the static table, no stored step is in progress, and a completed step
  has all its dependencies completed.
\<close>

definition wf_inv :: "workflow \<Rightarrow> bool" where
  "wf_inv flow \<longleftrightarrow>
     progress flow = progressOf flow \<and>
     (\<forall>s \<in> set (steps flow).
        dependencies s = getStepDependencies (step_id s) \<and>
        status s \<noteq> InProgress \<and>
        (status s = Completed \<longrightarrow>
           (\<forall>d \<in> set (getStepDependencies (step_id s)). \<not> depUnmet flow d)))"

text \<open>The workflow written back by a call that ran the step, and what it did to the step.\<close>

definition finalFlow :: "timestamp \<Rightarrow> string \<Rightarrow> step_result \<Rightarrow> workflow \<Rightarrow> workflow" where
  "finalFlow now sid res flow = recordResult now sid res (markInProgress now sid flow)"

definition settle :: "timestamp \<Rightarrow> step_result \<Rightarrow> step \<Rightarrow> step" where
  "settle now res s =
     s\<lparr>status := (if sr_success res then Completed else Failed), startDate := Some now,
       completedDate := Some now, result := Some res\<rparr>"

text \<open>
  A sequence of calls of \<^verbatim>\<open>executeWorkflowStep\<close>, one after the other, each with its own
  document engine behaviour, clock reading, workflow, step and step data.
\<close>

type_synonym step_call = "doc_engine \<times> timestamp \<times> string \<times> string \<times> step_data"

fun runCalls :: "wf_world \<Rightarrow> step_call list \<Rightarrow> wf_world" where
  "runCalls w [] = w"
| "runCalls w ((doc, now, wid, sid, sd) # cs) =
     runCalls (snd (executeWorkflowStep doc now w wid sid sd)) cs"

subsection \<open>The buckets of the monitor\<close>

text \<open>
  The three tests of the classification loop, and the days until due as the
  specification words them (\<open>floor\<close> where the code takes the ceiling).
\<close>

definition isUpcoming :: "time_value \<Rightarrow> compliance_event \<Rightarrow> bool" where
  "isUpcoming now e \<longleftrightarrow> 0 \<le> daysUntilDue (dueDate e) now \<and> daysUntilDue (dueDate e) now \<le> 30"

definition isOverdue :: "time_value \<Rightarrow> compliance_event \<Rightarrow> bool" where
  "isOverdue now e \<longleftrightarrow> daysUntilDue (dueDate e) now < 0"

definition isActionable :: "time_value \<Rightarrow> compliance_event \<Rightarrow> bool" where
  "isActionable now e \<longleftrightarrow> automatable e \<and> daysUntilDue (dueDate e) now \<le> automationTrigger e"

definition spec_daysUntilDue :: "time_value \<Rightarrow> time_value \<Rightarrow> int" where
  "spec_daysUntilDue due now = \<lfloor>(of_int (due - now) :: rat) / of_int msPerDay\<rfloor>"

text \<open>The result object \<^verbatim>\<open>executeAutomatedCompliance\<close> returns for an event.\<close>

definition resultOf :: "calendar \<Rightarrow> compliance_event \<Rightarrow> automation_result" where
  "resultOf cal e =
     \<lparr>ar_eventId = ev_id e, ar_eventType = Some (ev_type e),
      ar_success = fst (automationOutcome e cal), ar_action = fst (snd (automationOutcome e cal)),
      ar_revenue = snd (snd (automationOutcome e cal))\<rparr>"

subsection \<open>The shape of event ids\<close>

text \<open>
  Every id is a prefix naming the obligation (with the state or the tax type), the year
  in decimal, and a suffix naming the period within the year (empty, a month or a
  quarter). \<open>idShapes\<close> lists the prefix and suffix of the ids of one year in the order
  of generation; \<open>split_id\<close> reads the three parts back from an id.
\<close>

definition is_digit :: "char \<Rightarrow> bool" where
  "is_digit c \<longleftrightarrow> 48 \<le> (of_char c :: nat) \<and> (of_char c :: nat) \<le> 57"

definition split_id :: "string \<Rightarrow> string \<times> string \<times> string" where
  "split_id s =
     (takeWhile (\<lambda>c. \<not> is_digit c) s,
      takeWhile is_digit (dropWhile (\<lambda>c. \<not> is_digit c) s),
      dropWhile is_digit (dropWhile (\<lambda>c. \<not> is_digit c) s))"

definition shape_ok :: "string \<times> string \<Rightarrow> bool" where
  "shape_ok pq \<longleftrightarrow> list_all (\<lambda>c. \<not> is_digit c) (fst pq)
                     \<and> (case snd pq of [] \<Rightarrow> True | c # _ \<Rightarrow> \<not> is_digit c)"

definition taxShapes :: "tax_obligation \<Rightarrow> (string \<times> string) list" where
  "taxShapes ob =
    (if frequency ob = ''Monthly''
       then map (\<lambda>m. (''TAX-'' @ tax_type ob @ ''-'', ''-'' @ show_nat (m + 1))) [0..<12]
     else if frequency ob = ''Quarterly''
       then map (\<lambda>q. (''TAX-'' @ tax_type ob @ ''-'', ''-Q'' @ show_nat (q + 1))) [0..<4]
     else if frequency ob = ''Annual'' then [(''TAX-'' @ tax_type ob @ ''-'', [])]
     else [])"

definition idShapes :: "state_requirements \<Rightarrow> string \<Rightarrow> (string \<times> string) list" where
  "idShapes reqs st =
     (if annualReport_required reqs then [(''AR-'' @ st @ ''-'', [])] else [])
     @ concat (map taxShapes (taxObligations reqs))
     @ (if businessLicense_required reqs then [(''LIC-'' @ st @ ''-'', [])] else [])
     @ [(''RA-'' @ st @ ''-'', [])]
     @ (''FED-INCOME-'', []) # map (\<lambda>q. (''FED-EST-'', ''-Q'' @ show_nat (q + 1))) [0..<4]"

subsection \<open>Example inputs\<close>

text \<open>
  A Florida workflow for "Acme LLC", created at clock reading 1000 with no reply from
  the language model, and three tables derived from it: one in which the name check is
  completed, one in which the stored name check is in progress, and one in which every
  critical step but the last is completed.
\<close>

definition doc_ok :: doc_engine where
  "doc_ok method bn st = DocReturned True"

definition empty_world :: wf_world where
  "empty_world = \<lparr>workflows = Map.empty, wf_memory = [], wf_chain = [], executor_calls = []\<rparr>"

definition no_data :: step_data where
  "no_data = \<lparr>agentName = None, agentAddress = None\<rparr>"

definition acme_world :: wf_world where
  "acme_world = snd (createFormationWorkflow None 1000 empty_world
      \<lparr>fd_businessName = ''Acme LLC'', fd_state = ''FL''\<rparr>)"

definition acme_row :: wf_row where
  "acme_row = the (workflows acme_world ''WF-FL-1000'')"

definition set_completed :: "string list \<Rightarrow> workflow \<Rightarrow> workflow" where
  "set_completed ids flow =
     (let flow1 = flow\<lparr>steps := map (\<lambda>s. if step_id s \<in> set ids then s\<lparr>status := Completed\<rparr> else s)
                                   (steps flow)\<rparr>
      in flow1\<lparr>progress := progressOf flow1\<rparr>)"

definition acme_checked :: wf_world where
  "acme_checked = acme_world\<lparr>workflows := [''WF-FL-1000'' \<mapsto>
      acme_row\<lparr>workflow_data := set_completed [''name_check''] (workflow_data acme_row)\<rparr>]\<rparr>"

definition acme_checked_row :: wf_row where
  "acme_checked_row = the (workflows acme_checked ''WF-FL-1000'')"


definition acme_five_done :: wf_world where
  "acme_five_done = acme_world\<lparr>workflows := [''WF-FL-1000'' \<mapsto>
      acme_row\<lparr>workflow_data := set_completed
        [''name_check'', ''registered_agent'', ''articles_prep'', ''articles_filing'',
         ''ein_application''] (workflow_data acme_row)\<rparr>]\<rparr>"

text \<open>
  An Illinois company formed on 2024-03-10 (time value 1710028800000), its annual
  report event of 2024 (due 2024-03-15T00:00Z, time value 1710460800000, in a host on
  UTC), and a stored calendar holding that event.
\<close>

definition demo_event :: compliance_event where
  "demo_event = createAnnualReportEvent 0 (the (complianceRequirements ''IL'')) ''IL'' 2024 1710028800000"

definition demo_calendar :: calendar where
  "demo_calendar =
     \<lparr>cal_id = ''COMP-IL-1704067200000'', cal_businessName = ''Acme LLC'', cal_state = ''IL'',
      ein = ''12-3456789'', formationDate = 1710028800000, businessType = ''General'',
      events = [demo_event], totalEvents = 1, annualComplianceCost = 75,
      cal_createdDate = 1704067200000, nextDueEvent = Some ''AR-IL-2024''\<rparr>"

definition demo_world :: comp_world where
  "demo_world = \<lparr>calendars = [''COMP-IL-1704067200000'' \<mapsto> demo_calendar],
                  comp_memory = [], comp_chain = [''COMP-IL-1704067200000'']\<rparr>"

definition empty_comp_world :: comp_world where
  "empty_comp_world = \<lparr>calendars = Map.empty, comp_memory = [], comp_chain = []\<rparr>"

definition acme_il :: company_data where
  "acme_il = \<lparr>cd_businessName = ''Acme LLC'', cd_state = ''IL'',
              cd_formationDate = Some 1710028800000, cd_ein = ''12-3456789'',
              cd_businessType = ''General''\<rparr>"

definition bolt_il :: company_data where
  "bolt_il = \<lparr>cd_businessName = ''Bolt LLC'', cd_state = ''IL'',
              cd_formationDate = Some 1710028800000, cd_ein = ''98-7654321'',
              cd_businessType = ''Retail''\<rparr>"


section \<open>Properties of the workflow automation engine\<close>

subsection \<open>Updating one step\<close>

lemma find_update_step_same:
  assumes "\<And>s. step_id (f s) = step_id s"
  shows "find (\<lambda>s. step_id s = sid) (update_step sid f ss)
           = map_option f (find (\<lambda>s. step_id s = sid) ss)"
  using assms by (induction ss) auto

lemma find_update_step_other:
  assumes "\<And>s. step_id (f s) = step_id s" "sid' \<noteq> sid"
  shows "find (\<lambda>s. step_id s = sid') (update_step sid f ss)
           = find (\<lambda>s. step_id s = sid') ss"
  using assms by (induction ss) auto

lemma length_update_step [simp]: "length (update_step sid f ss) = length ss"
  by (induction ss) auto

lemma update_step_twice:
  assumes "\<And>s. step_id (f s) = step_id s"
  shows "update_step sid g (update_step sid f ss) = update_step sid (g \<circ> f) ss"
  using assms by (induction ss) auto

lemma set_update_step:
  assumes "find (\<lambda>s. step_id s = sid) ss = Some st"
  shows "set (update_step sid f ss) \<subseteq> insert (f st) (set ss)"
  using assms by (induction ss) (auto split: if_splits)

lemma count_update_step:
  assumes "find (\<lambda>s. step_id s = sid) ss = Some st" "status st \<noteq> Completed"
  shows "length (filter (\<lambda>s. status s = Completed) (update_step sid f ss))
          = length (filter (\<lambda>s. status s = Completed) ss)
             + (if status (f st) = Completed then 1 else 0)"
  using assms by (induction ss) (auto split: if_splits)

lemma length_filter_all:
  "length (filter P xs) = length xs \<longleftrightarrow> (\<forall>x \<in> set xs. P x)"
proof (induction xs)
  case Nil
  then show ?case by simp
next
  case (Cons x xs)
  have "length (filter P xs) \<le> length xs" by simp
  then have "length (filter P xs) \<noteq> Suc (length xs)" by linarith
  with Cons show ?case by auto
qed

lemma progress_full:
  assumes "k \<le> n" "0 < n"
  shows "(of_nat k / of_nat n) * (100::rat) = 100 \<longleftrightarrow> k = n"
  using assms by (auto simp: field_simps)

lemma progress_mono:
  assumes "k \<le> k'"
  shows "(of_nat k / of_nat n) * (100::rat) \<le> (of_nat k' / of_nat n) * 100"
  using assms by (cases "n = 0") (auto simp: field_simps divide_right_mono)


subsection \<open>What a call does to the table\<close>

lemma steps_finalFlow:
  "steps (finalFlow now sid res flow) = update_step sid (settle now res) (steps flow)"
proof -
  have "(\<lambda>s. s\<lparr>status := (if sr_success res then Completed else Failed),
               completedDate := Some now, result := Some res\<rparr>)
          \<circ> (\<lambda>s. s\<lparr>status := InProgress, startDate := Some now\<rparr>) = settle now res"
    by (rule ext) (simp add: settle_def)
  then show ?thesis
    by (simp add: finalFlow_def recordResult_def markInProgress_def Let_def update_step_twice)
qed

lemma progress_finalFlow:
  "progress (finalFlow now sid res flow) = progressOf (finalFlow now sid res flow)"
  by (simp add: finalFlow_def recordResult_def Let_def progressOf_def completedCount_def)

lemma exec_cases:
  assumes "workflows w wid = Some row"
    and "executeWorkflowStep doc now w wid sid sd = (out, w')"
  shows "(workflows w' = workflows w \<and> wf_memory w' = wf_memory w \<and> wf_chain w' = wf_chain w
           \<and> (\<forall>res p na c. out \<noteq> StepExecuted res p na c))
       \<or> (\<exists>st run res.
             findStep (workflow_data row) sid = Some st \<and> status st \<noteq> Completed
           \<and> (\<forall>d \<in> set (getStepDependencies sid). \<not> depUnmet (workflow_data row) d)
           \<and> stepExecutor sid = Some run
           \<and> run doc (markInProgress now sid (workflow_data row)) sd = Inr res
           \<and> out = StepExecuted res (progress (finalFlow now sid res (workflow_data row)))
                   (nextAction (finalFlow now sid res (workflow_data row)))
                   (progress (finalFlow now sid res (workflow_data row)) = 100)
           \<and> workflows w' = (workflows w)(wid \<mapsto>
                 (if progress (finalFlow now sid res (workflow_data row)) = 100
                  then row\<lparr>workflow_data := finalFlow now sid res (workflow_data row),
                           row_status := ''completed'', completed_at := Some now\<rparr>
                  else row\<lparr>workflow_data := finalFlow now sid res (workflow_data row)\<rparr>)))"
  using assms
  by (auto simp: executeWorkflowStep_def reserveStep_def runReserved_def Let_def checkStepDependencies_def completeWorkflow_def
        finalFlow_def filter_empty_conv
      split: option.splits if_splits sum.splits prod.splits)

lemma findStep_Some:
  "findStep flow sid = Some st \<Longrightarrow> st \<in> set (steps flow) \<and> step_id st = sid"
  by (auto simp: findStep_def find_Some_iff)

lemma step_id_settle [simp]: "step_id (settle now res s) = step_id s"
  by (simp add: settle_def)

lemma findStep_finalFlow:
  "findStep (finalFlow now sid res flow) d =
     (if d = sid then map_option (settle now res) (findStep flow sid) else findStep flow d)"
  by (simp add: findStep_def steps_finalFlow find_update_step_same find_update_step_other)

lemma depUnmet_finalFlow:
  assumes "findStep flow sid = Some st" "status st \<noteq> Completed" "\<not> depUnmet flow d"
  shows "\<not> depUnmet (finalFlow now sid res flow) d"
  using assms by (auto simp: depUnmet_def findStep_finalFlow split: option.splits)

lemma set_steps_finalFlow:
  assumes "findStep flow sid = Some st"
  shows "set (steps (finalFlow now sid res flow)) \<subseteq> insert (settle now res st) (set (steps flow))"
  using assms by (simp add: steps_finalFlow findStep_def set_update_step)

lemma completedCount_finalFlow:
  assumes "findStep flow sid = Some st" "status st \<noteq> Completed"
  shows "completedCount (finalFlow now sid res flow)
           = completedCount flow + (if sr_success res then 1 else 0)"
  using assms count_update_step [of sid "steps flow" st "settle now res"]
  by (simp add: completedCount_def steps_finalFlow findStep_def settle_def)

lemma progressOf_finalFlow_mono:
  assumes "findStep flow sid = Some st" "status st \<noteq> Completed"
  shows "progressOf flow \<le> progressOf (finalFlow now sid res flow)"
proof -
  have "completedCount flow \<le> completedCount (finalFlow now sid res flow)"
    using assms by (simp add: completedCount_finalFlow)
  from progress_mono [OF this, of "length (steps flow)"] show ?thesis
    by (simp add: progressOf_def steps_finalFlow)
qed

lemma wf_inv_finalFlow:
  assumes inv: "wf_inv flow" and st: "findStep flow sid = Some st"
    and nc: "status st \<noteq> Completed"
    and deps: "\<forall>d \<in> set (getStepDependencies sid). \<not> depUnmet flow d"
  shows "wf_inv (finalFlow now sid res flow)"
  unfolding wf_inv_def
proof (intro conjI ballI)
  show "progress (finalFlow now sid res flow) = progressOf (finalFlow now sid res flow)"
    by (rule progress_finalFlow)
next
  fix s assume "s \<in> set (steps (finalFlow now sid res flow))"
  with set_steps_finalFlow [OF st] have s: "s = settle now res st \<or> s \<in> set (steps flow)"
    by auto
  from findStep_Some [OF st] have stin: "st \<in> set (steps flow)" and sid: "step_id st = sid"
    by auto
  from inv stin have dst: "dependencies st = getStepDependencies (step_id st)"
    by (simp add: wf_inv_def)
  show "dependencies s = getStepDependencies (step_id s)"
    using s inv dst by (auto simp: wf_inv_def settle_def)
  show "status s \<noteq> InProgress"
    using s inv by (auto simp: wf_inv_def settle_def split: if_splits)
  show "status s = Completed \<longrightarrow>
          (\<forall>d \<in> set (getStepDependencies (step_id s)). \<not> depUnmet (finalFlow now sid res flow) d)"
  proof (intro impI ballI)
    fix d assume c: "status s = Completed" and d: "d \<in> set (getStepDependencies (step_id s))"
    from s have "\<not> depUnmet flow d"
    proof
      assume "s = settle now res st"
      with d sid deps show ?thesis by simp
    next
      assume "s \<in> set (steps flow)"
      with inv c d show ?thesis by (simp add: wf_inv_def)
    qed
    then show "\<not> depUnmet (finalFlow now sid res flow) d"
      by (rule depUnmet_finalFlow [OF st nc])
  qed
qed

lemma exec_step_inv:
  assumes row: "workflows w wid = Some row" and inv: "wf_inv (workflow_data row)"
    and ex: "executeWorkflowStep doc now w wid2 sid sd = (out, w')"
  shows "\<exists>row'. workflows w' wid = Some row' \<and> wf_inv (workflow_data row')
           \<and> progress (workflow_data row) \<le> progress (workflow_data row')"
proof (cases "wid2 = wid")
  case False
  have "workflows w' wid = workflows w wid"
  proof (cases "workflows w wid2")
    case None
    with ex show ?thesis by (simp add: executeWorkflowStep_def reserveStep_def)
  next
    case (Some row2)
    from exec_cases [OF Some ex] False show ?thesis by auto
  qed
  with row inv show ?thesis by auto
next
  case True
  from exec_cases [OF row ex [unfolded True]] show ?thesis
  proof (elim disjE exE conjE)
    assume "workflows w' = workflows w"
    with row inv show ?thesis by auto
  next
    fix st run res
    let ?f = "finalFlow now sid res (workflow_data row)"
    assume st: "findStep (workflow_data row) sid = Some st" and nc: "status st \<noteq> Completed"
      and deps: "\<forall>d \<in> set (getStepDependencies sid). \<not> depUnmet (workflow_data row) d"
      and w': "workflows w' = (workflows w)(wid \<mapsto>
                 (if progress ?f = 100
                  then row\<lparr>workflow_data := ?f, row_status := ''completed'', completed_at := Some now\<rparr>
                  else row\<lparr>workflow_data := ?f\<rparr>))"
    have i: "wf_inv ?f" by (rule wf_inv_finalFlow [OF inv st nc deps])
    have "progress (workflow_data row) = progressOf (workflow_data row)"
      using inv by (simp add: wf_inv_def)
    also have "\<dots> \<le> progressOf ?f" by (rule progressOf_finalFlow_mono [OF st nc])
    also have "\<dots> = progress ?f" by (simp add: progress_finalFlow)
    finally have "progress (workflow_data row) \<le> progress ?f" .
    with i w' show ?thesis by auto
  qed
qed


subsection \<open>Created workflows and sequences of calls\<close>

lemma wf_inv_created:
  assumes "createFormationWorkflow reply now w fd = (Inr (wid, flow), w')"
  shows "workflows w' wid = Some \<lparr>row_status = ''created'', workflow_data = flow, completed_at = None\<rparr>
         \<and> wf_inv flow"
  using assms
  by (auto simp: createFormationWorkflow_def Let_def wf_inv_def progressOf_def completedCount_def
        instantiate_step_def filter_empty_conv
      split: option.splits)


lemma runCalls_inv:
  assumes "workflows w wid = Some row" "wf_inv (workflow_data row)"
  shows "\<exists>row'. workflows (runCalls w cs) wid = Some row' \<and> wf_inv (workflow_data row')
           \<and> progress (workflow_data row) \<le> progress (workflow_data row')"
  using assms
proof (induction w cs arbitrary: row rule: runCalls.induct)
  case (1 w)
  then show ?case by auto
next
  case (2 w doc now wid2 sid sd cs)
  obtain out w1 where ex: "executeWorkflowStep doc now w wid2 sid sd = (out, w1)"
    by (cases "executeWorkflowStep doc now w wid2 sid sd")
  from exec_step_inv [OF "2.prems"(1) "2.prems"(2) ex]
  obtain row1 where r1: "workflows w1 wid = Some row1" and i1: "wf_inv (workflow_data row1)"
    and le1: "progress (workflow_data row) \<le> progress (workflow_data row1)"
    by blast
  from "2.IH" [of row1] r1 i1 ex
  obtain row' where "workflows (runCalls w1 cs) wid = Some row'" "wf_inv (workflow_data row')"
    "progress (workflow_data row1) \<le> progress (workflow_data row')"
    by auto
  with le1 ex show ?case by auto
qed


text \<open>
  Hence every workflow that the engine has created satisfies the invariant after any
  sequence of calls.
\<close>

lemma created_then_calls_inv:
  assumes "createFormationWorkflow reply now w fd = (Inr (wid, flow), w')"
  shows "\<exists>row. workflows (runCalls w' cs) wid = Some row \<and> wf_inv (workflow_data row)"
proof -
  from wf_inv_created [OF assms]
  have r: "workflows w' wid
             = Some \<lparr>row_status = ''created'', workflow_data = flow, completed_at = None\<rparr>"
    and i: "wf_inv (workflow_data \<lparr>row_status = ''created'', workflow_data = flow, completed_at = None\<rparr>)"
    by simp_all
  from runCalls_inv [OF r i, of cs] show ?thesis by blast
qed

lemma acme_row_lookup: "workflows acme_world ''WF-FL-1000'' = Some acme_row"
  by code_simp


lemma acme_checked_lookup: "workflows acme_checked ''WF-FL-1000'' = Some acme_checked_row"
  by (simp add: acme_checked_def acme_checked_row_def)

lemma acme_checked_inv: "wf_inv (workflow_data acme_checked_row)"
  by code_simp

subsection \<open>The guards of a call\<close>





text \<open>
  The mark is not in the table while the executor runs. Two calls for the same step
  that both load the workflow before either writes it back both pass the guards, and
  both executors are invoked.
\<close>

lemma concurrent_calls_both_execute:
  "(case (reserveStep 2000 acme_world ''WF-FL-1000'' ''name_check'',
          reserveStep 2001 acme_world ''WF-FL-1000'' ''name_check'') of
      (Inr ra, Inr rb) \<Rightarrow>
         executor_calls (snd (runReserved doc_ok 2001
            (snd (runReserved doc_ok 2000 acme_world ''WF-FL-1000'' ''name_check'' no_data ra))
            ''WF-FL-1000'' ''name_check'' no_data rb))
         = [\<lparr>ec_workflow = ''WF-FL-1000'', ec_step = ''name_check'', ec_status = Some InProgress\<rparr>,
            \<lparr>ec_workflow = ''WF-FL-1000'', ec_step = ''name_check'', ec_status = Some InProgress\<rparr>]
    | _ \<Rightarrow> False)"
  by code_simp

text \<open>
  Claim C2. For a workflow the engine can hold and a step of it: if a dependency of the
  step is not completed (or is absent from the workflow), the call returns the
  dependency signal with the list of unmet dependencies, and the whole state (the
  table with every field of the workflow, the memory, the chain, the executor trace) is
  exactly as before.
\<close>

theorem unmet_dependency_no_mutation:
  assumes "workflows w wid = Some row" and "wf_inv (workflow_data row)"
    and "findStep (workflow_data row) sid = Some st"
    and "d \<in> set (dependencies st)" and "depUnmet (workflow_data row) d"
  shows "executeWorkflowStep doc now w wid sid sd =
           (DependenciesNotCompleted (filter (depUnmet (workflow_data row)) (dependencies st)), w)"
proof -
  from findStep_Some [OF assms(3)] have stin: "st \<in> set (steps (workflow_data row))"
    and sid: "step_id st = sid" by auto
  from assms(2) stin sid have deps: "dependencies st = getStepDependencies sid"
    by (auto simp: wf_inv_def)
  from assms(2) stin sid assms(4,5) deps have "status st \<noteq> Completed"
    by (auto simp: wf_inv_def)
  moreover from assms(4,5) deps
  have "filter (depUnmet (workflow_data row)) (getStepDependencies sid) \<noteq> []"
    by (auto simp: filter_empty_conv)
  ultimately show ?thesis using assms(1,3) deps
    by (simp add: executeWorkflowStep_def reserveStep_def runReserved_def Let_def checkStepDependencies_def)
qed


theorem unmet_dependency_no_mutation_witness:
  "map_option dependencies (findStep (workflow_data acme_checked_row) ''articles_prep'')
       = Some [''name_check'', ''registered_agent'']
   \<and> \<not> depUnmet (workflow_data acme_checked_row) ''name_check''
   \<and> depUnmet (workflow_data acme_checked_row) ''registered_agent''
   \<and> executeWorkflowStep doc_ok 9000 acme_checked ''WF-FL-1000'' ''articles_prep'' no_data
       = (DependenciesNotCompleted [''registered_agent''], acme_checked)"
proof -
  let ?st = "the (findStep (workflow_data acme_checked_row) ''articles_prep'')"
  have st: "findStep (workflow_data acme_checked_row) ''articles_prep'' = Some ?st"
    by code_simp
  have ds: "dependencies ?st = [''name_check'', ''registered_agent'']"
    by code_simp
  have md: "map_option dependencies (findStep (workflow_data acme_checked_row) ''articles_prep'')
       = Some [''name_check'', ''registered_agent'']"
    by code_simp
  have d: "''registered_agent'' \<in> set (dependencies ?st)"
    by (simp add: ds)
  have u: "depUnmet (workflow_data acme_checked_row) ''registered_agent''"
    by code_simp
  have n: "\<not> depUnmet (workflow_data acme_checked_row) ''name_check''"
    by code_simp
  from unmet_dependency_no_mutation
         [OF acme_checked_lookup acme_checked_inv st d u, of doc_ok 9000 no_data]
  show ?thesis using u n md by (simp add: ds)
qed

subsection \<open>Completion and progress\<close>

text \<open>
  Claim C6, as the code has it. A call that ran a step reports the workflow completed,
  and sets the status of its row to completed, exactly when every step of the workflow,
  critical or not, is completed after the call; any other call leaves the row as it
  was. The \<^verbatim>\<open>critical\<close> flag plays no part.
\<close>

theorem completed_iff_all_steps_completed:
  assumes "workflows w wid = Some row"
    and "executeWorkflowStep doc now w wid sid sd = (out, w')"
  shows "\<exists>row'. workflows w' wid = Some row'
         \<and> (case out of
              StepExecuted res p na done \<Rightarrow>
                done = (\<forall>s \<in> set (steps (workflow_data row')). status s = Completed)
              \<and> row_status row' = (if done then ''completed'' else row_status row)
            | _ \<Rightarrow> row' = row)"
proof -
  from exec_cases [OF assms] show ?thesis
  proof (elim disjE exE conjE)
    assume "workflows w' = workflows w" "\<forall>res p na c. out \<noteq> StepExecuted res p na c"
    with assms(1) show ?thesis by (cases out) auto
  next
    fix st run res
    let ?f = "finalFlow now sid res (workflow_data row)"
    assume st: "findStep (workflow_data row) sid = Some st"
      and out: "out = StepExecuted res (progress ?f) (nextAction ?f) (progress ?f = 100)"
      and w': "workflows w' = (workflows w)(wid \<mapsto>
                 (if progress ?f = 100
                  then row\<lparr>workflow_data := ?f, row_status := ''completed'', completed_at := Some now\<rparr>
                  else row\<lparr>workflow_data := ?f\<rparr>))"
    from findStep_Some [OF st] have "steps (workflow_data row) \<noteq> []" by auto
    then have n: "0 < length (steps ?f)" by (simp add: steps_finalFlow)
    have k: "completedCount ?f \<le> length (steps ?f)" by (simp add: completedCount_def)
    have "progress ?f = 100 \<longleftrightarrow> completedCount ?f = length (steps ?f)"
      using progress_full [OF k n] by (simp add: progress_finalFlow progressOf_def)
    also have "\<dots> \<longleftrightarrow> (\<forall>s \<in> set (steps ?f). status s = Completed)"
      by (simp add: completedCount_def length_filter_all)
    finally have "progress ?f = 100 \<longleftrightarrow> (\<forall>s \<in> set (steps ?f). status s = Completed)" .
    with out w' show ?thesis by auto
  qed
qed

theorem completed_iff_all_steps_completed_witness:
  "\<exists>row'. workflows (snd (executeWorkflowStep doc_ok 2000 acme_world ''WF-FL-1000'' ''name_check'' no_data))
             ''WF-FL-1000'' = Some row'
     \<and> (case fst (executeWorkflowStep doc_ok 2000 acme_world ''WF-FL-1000'' ''name_check'' no_data) of
          StepExecuted res p na done \<Rightarrow>
            done = (\<forall>s \<in> set (steps (workflow_data row')). status s = Completed)
          \<and> row_status row' = (if done then ''completed'' else row_status acme_row)
        | _ \<Rightarrow> row' = acme_row)"
  by (rule completed_iff_all_steps_completed [OF acme_row_lookup surjective_pairing])

text \<open>
  The claim as stated fails: after the last critical step of \<open>acme_five_done\<close> is run,
  all six critical steps are completed, three steps that are not critical are pending,
  and the workflow is not completed (the call says so and the row is still "created").
\<close>

theorem critical_steps_done_not_completed:
  "(case executeWorkflowStep doc_ok 7000 acme_five_done ''WF-FL-1000'' ''compliance_setup'' no_data of
      (out, w') \<Rightarrow>
         out = StepExecuted \<lparr>sr_success = True, sr_action = ''compliance_setup'', sr_error = None\<rparr>
                 (200 / 3) (Some ''name_reservation'') False
       \<and> map_option (\<lambda>row. (row_status row,
              map (\<lambda>s. (step_id s, status s)) (filter critical (steps (workflow_data row)))))
            (workflows w' ''WF-FL-1000'')
          = Some (''created'',
                  [(''name_check'', Completed), (''registered_agent'', Completed),
                   (''articles_prep'', Completed), (''articles_filing'', Completed),
                   (''ein_application'', Completed), (''compliance_setup'', Completed)]))"
  by code_simp





section \<open>Properties of the compliance and revenue engine\<close>

subsection \<open>Days until due\<close>

lemma daysUntilDue_ceiling:
  "daysUntilDue due now = \<lceil>(of_int (due - now) :: rat) / of_int msPerDay\<rceil>"
proof -
  have "(of_int (due - now) :: rat) / of_int msPerDay
          = - ((of_int (now - due) :: rat) / of_int msPerDay)"
    by (simp add: divide_simps)
  then have "\<lceil>(of_int (due - now) :: rat) / of_int msPerDay\<rceil>
          = - \<lfloor>(of_int (now - due) :: rat) / of_int msPerDay\<rfloor>"
    by (simp only: ceiling_def minus_minus)
  also have "\<dots> = - ((now - due) div msPerDay)"
    by (simp only: floor_divide_of_int_eq)
  finally show ?thesis by (simp add: daysUntilDue_def)
qed

lemma daysUntilDue_antimono:
  assumes "now \<le> now'"
  shows "daysUntilDue due now' \<le> daysUntilDue due now"
proof -
  have "(now - due) div msPerDay \<le> (now' - due) div msPerDay"
    using assms by (intro zdiv_mono1) (simp_all add: msPerDay_def)
  then show ?thesis by (simp add: daysUntilDue_def)
qed

lemma daysUntilDue_passed: "due \<le> now \<Longrightarrow> daysUntilDue due now \<le> 0"
  by (simp add: daysUntilDue_def msPerDay_def pos_imp_zdiv_nonneg_iff)

lemma daysUntilDue_overdue: "daysUntilDue due now < 0 \<longleftrightarrow> msPerDay \<le> now - due"
proof -
  have "0 < (now - due) div msPerDay \<longleftrightarrow> msPerDay \<le> now - due"
    by (simp add: msPerDay_def pos_imp_zdiv_pos_iff)
  then show ?thesis by (simp add: daysUntilDue_def)
qed


subsection \<open>The monitor\<close>

lemma classifyEvents_filters:
  "classifyEvents now es =
     (map (\<lambda>e. (e, daysUntilDue (dueDate e) now)) (filter (isUpcoming now) es),
      map (\<lambda>e. (e, \<bar>daysUntilDue (dueDate e) now\<bar>)) (filter (isOverdue now) es),
      filter (isActionable now) es)"
  by (induction es) (auto simp: Let_def isUpcoming_def isOverdue_def isActionable_def)

lemma runAutomation_results:
  "fst (runAutomation cal w es) = map (resultOf cal) es"
  by (induction es arbitrary: w)
     (simp_all add: executeAutomatedCompliance_def Let_def split_beta resultOf_def)

lemma runAutomation_calendars:
  "calendars (snd (runAutomation cal w es)) = calendars w"
  by (induction es arbitrary: w)
     (simp_all add: executeAutomatedCompliance_def Let_def split_beta)

lemma ar_eventId_resultOf [simp]: "ar_eventId (resultOf cal e) = ev_id e"
  by (simp add: resultOf_def)

lemma monitorCompliance_found:
  assumes "calendars w cid = Some cal"
  shows "\<exists>r w'. monitorCompliance now w cid = (Inr r, w')
          \<and> upcomingEvents (complianceReport r)
              = map (\<lambda>e. (e, daysUntilDue (dueDate e) now)) (filter (isUpcoming now) (events cal))
          \<and> overdueEvents (complianceReport r)
              = map (\<lambda>e. (e, \<bar>daysUntilDue (dueDate e) now\<bar>)) (filter (isOverdue now) (events cal))
          \<and> actionableEvents (complianceReport r) = filter (isActionable now) (events cal)
          \<and> automationResults r = map (resultOf cal) (filter (isActionable now) (events cal))
          \<and> calendars w' = calendars w"
  using assms
  by (simp add: monitorCompliance_def classifyEvents_filters Let_def split_beta
        runAutomation_calendars runAutomation_results)

lemma isActionable_later:
  assumes "now \<le> now'" "isActionable now e"
  shows "isActionable now' e"
  using assms daysUntilDue_antimono [OF assms(1), of "dueDate e"]
  by (auto simp: isActionable_def)


lemma demo_lookup: "calendars demo_world ''COMP-IL-1704067200000'' = Some demo_calendar"
  by (simp add: demo_world_def)

lemma demo_event_fields:
  "ev_id demo_event = ''AR-IL-2024'' \<and> dueDate demo_event = 1710460800000
   \<and> automatable demo_event \<and> automationTrigger demo_event = 45"
  by code_simp

text \<open>
  Claim C3, as the code has it. For a stored calendar and a clock reading \<open>now\<close>, the
  monitor takes the days until due of an event to be the ceiling of
  (\<open>dueDate - now\<close>) in days; the event is reported overdue exactly when that number is
  negative, upcoming exactly when it is from 0 to 30, and actionable exactly when the
  event is automatable and the number is at most its automation trigger. The three
  lists are those filters of the calendar's events, so the buckets of an event are a
  function of its due date, its automatable flag, its automation trigger and \<open>now\<close>;
  no status takes part.
\<close>

theorem monitor_classification:
  assumes "calendars w cid = Some cal"
  shows "\<exists>r w'. monitorCompliance now w cid = (Inr r, w')
     \<and> overdueEvents (complianceReport r) =
         map (\<lambda>e. (e, \<bar>\<lceil>(of_int (dueDate e - now) :: rat) / of_int msPerDay\<rceil>\<bar>))
           (filter (\<lambda>e. \<lceil>(of_int (dueDate e - now) :: rat) / of_int msPerDay\<rceil> < 0) (events cal))
     \<and> upcomingEvents (complianceReport r) =
         map (\<lambda>e. (e, \<lceil>(of_int (dueDate e - now) :: rat) / of_int msPerDay\<rceil>))
           (filter (\<lambda>e. 0 \<le> \<lceil>(of_int (dueDate e - now) :: rat) / of_int msPerDay\<rceil>
                      \<and> \<lceil>(of_int (dueDate e - now) :: rat) / of_int msPerDay\<rceil> \<le> 30) (events cal))
     \<and> actionableEvents (complianceReport r) =
         filter (\<lambda>e. automatable e
                      \<and> \<lceil>(of_int (dueDate e - now) :: rat) / of_int msPerDay\<rceil> \<le> automationTrigger e)
           (events cal)"
proof -
  have "isOverdue now = (\<lambda>e. \<lceil>(of_int (dueDate e - now) :: rat) / of_int msPerDay\<rceil> < 0)"
    "isUpcoming now = (\<lambda>e. 0 \<le> \<lceil>(of_int (dueDate e - now) :: rat) / of_int msPerDay\<rceil>
                      \<and> \<lceil>(of_int (dueDate e - now) :: rat) / of_int msPerDay\<rceil> \<le> 30)"
    "isActionable now = (\<lambda>e. automatable e
                      \<and> \<lceil>(of_int (dueDate e - now) :: rat) / of_int msPerDay\<rceil> \<le> automationTrigger e)"
    by (simp_all add: fun_eq_iff isOverdue_def isUpcoming_def isActionable_def daysUntilDue_ceiling)
  with monitorCompliance_found [OF assms, of now] show ?thesis
    by (auto simp: daysUntilDue_ceiling)
qed


theorem monitor_classification_witness:
  "\<exists>r w'. monitorCompliance 1710504000000 demo_world ''COMP-IL-1704067200000'' = (Inr r, w')
     \<and> overdueEvents (complianceReport r) =
         map (\<lambda>e. (e, \<bar>\<lceil>(of_int (dueDate e - 1710504000000) :: rat) / of_int msPerDay\<rceil>\<bar>))
           (filter (\<lambda>e. \<lceil>(of_int (dueDate e - 1710504000000) :: rat) / of_int msPerDay\<rceil> < 0)
              (events demo_calendar))
     \<and> upcomingEvents (complianceReport r) =
         map (\<lambda>e. (e, \<lceil>(of_int (dueDate e - 1710504000000) :: rat) / of_int msPerDay\<rceil>))
           (filter (\<lambda>e. 0 \<le> \<lceil>(of_int (dueDate e - 1710504000000) :: rat) / of_int msPerDay\<rceil>
                      \<and> \<lceil>(of_int (dueDate e - 1710504000000) :: rat) / of_int msPerDay\<rceil> \<le> 30)
              (events demo_calendar))
     \<and> actionableEvents (complianceReport r) =
         filter (\<lambda>e. automatable e
                      \<and> \<lceil>(of_int (dueDate e - 1710504000000) :: rat) / of_int msPerDay\<rceil>
                           \<le> automationTrigger e)
           (events demo_calendar)"
  by (rule monitor_classification [OF demo_lookup])

text \<open>
  The claim as stated fails: twelve hours after the due date of \<open>demo_event\<close> the floor
  of the days until due is -1, so the claim makes the event overdue; the monitor counts
  0 days, reports no overdue event and lists the event as upcoming.
\<close>

theorem half_day_late_not_overdue:
  "spec_daysUntilDue (dueDate demo_event) 1710504000000 = - 1
   \<and> (case monitorCompliance 1710504000000 demo_world ''COMP-IL-1704067200000'' of
        (Inr r, w') \<Rightarrow>
           overdueEvents (complianceReport r) = []
         \<and> map (\<lambda>p. (ev_id (fst p), snd p)) (upcomingEvents (complianceReport r))
             = [(''AR-IL-2024'', 0)]
      | (Inl msg, w') \<Rightarrow> False)"
  by code_simp

text \<open>
  Claim C4, as the code has it. Every actionable event is dispatched to
  \<^verbatim>\<open>executeAutomatedCompliance\<close>; whatever the outcome, the stored calendar is as before
  (an event has no status to set), and a second pass over the same calendar at the same
  or a later \<open>now\<close> finds the same events actionable and dispatches them again, with
  the same results when \<open>now\<close> is the same.
\<close>

theorem second_pass_dispatches_again:
  assumes "calendars w cid = Some cal" and "now \<le> now'"
  shows "\<exists>r1 w1 r2 w2.
           monitorCompliance now w cid = (Inr r1, w1)
         \<and> monitorCompliance now' w1 cid = (Inr r2, w2)
         \<and> calendars w1 cid = Some cal \<and> calendars w2 cid = Some cal
         \<and> map ar_eventId (automationResults r1) = map ev_id (actionableEvents (complianceReport r1))
         \<and> set (actionableEvents (complianceReport r1)) \<subseteq> set (actionableEvents (complianceReport r2))
         \<and> set (automationResults r1) \<subseteq> set (automationResults r2)
         \<and> (now' = now \<longrightarrow> automationResults r2 = automationResults r1)"
proof -
  from monitorCompliance_found [OF assms(1), of now]
  obtain r1 w1 where m1: "monitorCompliance now w cid = (Inr r1, w1)"
    and a1: "actionableEvents (complianceReport r1) = filter (isActionable now) (events cal)"
    and res1: "automationResults r1 = map (resultOf cal) (filter (isActionable now) (events cal))"
    and c1: "calendars w1 = calendars w" by blast
  from c1 assms(1) have s1: "calendars w1 cid = Some cal" by simp
  from monitorCompliance_found [OF s1, of now']
  obtain r2 w2 where m2: "monitorCompliance now' w1 cid = (Inr r2, w2)"
    and a2: "actionableEvents (complianceReport r2) = filter (isActionable now') (events cal)"
    and res2: "automationResults r2 = map (resultOf cal) (filter (isActionable now') (events cal))"
    and c2: "calendars w2 = calendars w1" by blast
  have sub: "set (filter (isActionable now) (events cal)) \<subseteq> set (filter (isActionable now') (events cal))"
    using isActionable_later [OF assms(2)] by auto
  then have "set (map (resultOf cal) (filter (isActionable now) (events cal)))
           \<subseteq> set (map (resultOf cal) (filter (isActionable now') (events cal)))"
    by auto
  with m1 m2 s1 c2 a1 a2 res1 res2 sub show ?thesis by auto
qed


theorem second_pass_dispatches_again_witness:
  "\<exists>r1 w1 r2 w2.
       monitorCompliance 1709596800000 demo_world ''COMP-IL-1704067200000'' = (Inr r1, w1)
     \<and> monitorCompliance 1709683200000 w1 ''COMP-IL-1704067200000'' = (Inr r2, w2)
     \<and> calendars w1 ''COMP-IL-1704067200000'' = Some demo_calendar
     \<and> calendars w2 ''COMP-IL-1704067200000'' = Some demo_calendar
     \<and> map ar_eventId (automationResults r1) = map ev_id (actionableEvents (complianceReport r1))
     \<and> set (actionableEvents (complianceReport r1)) \<subseteq> set (actionableEvents (complianceReport r2))
     \<and> set (automationResults r1) \<subseteq> set (automationResults r2)"
proof -
  have "(1709596800000 :: int) \<le> 1709683200000" by simp
  from second_pass_dispatches_again [OF demo_lookup this] show ?thesis by blast
qed

text \<open>
  The claim as stated fails: ten days before the due date, with the event inside its
  trigger window, the first pass dispatches \<open>demo_event\<close> and the executor succeeds; a
  second pass at the same \<open>now\<close> dispatches the same event again.
\<close>

theorem actioned_event_dispatched_again:
  "(case monitorCompliance 1709596800000 demo_world ''COMP-IL-1704067200000'' of
      (Inr r1, w1) \<Rightarrow>
        (case monitorCompliance 1709596800000 w1 ''COMP-IL-1704067200000'' of
           (Inr r2, w2) \<Rightarrow>
              map (\<lambda>p. (ev_id (fst p), snd p)) (upcomingEvents (complianceReport r1))
                = [(''AR-IL-2024'', 10)]
            \<and> map (\<lambda>r. (ar_eventId r, ar_success r)) (automationResults r1)
                = [(''AR-IL-2024'', True)]
            \<and> map (\<lambda>r. (ar_eventId r, ar_success r)) (automationResults r2)
                = [(''AR-IL-2024'', True)]
            \<and> length (comp_memory w2) = 4
         | (Inl msg, w2) \<Rightarrow> False)
    | (Inl msg, w1) \<Rightarrow> False)"
  by code_simp

text \<open>
  Claim C7, as the code has it. An event of a stored calendar whose due date has passed
  is surfaced by every pass made from then on: it is in the overdue list once a full
  day has passed, and in the upcoming list (with 0 days) before that. If it is
  automatable and its automation trigger is not negative, every such pass also
  dispatches it to the executor. A pass leaves the calendar as it was, so this holds
  for every later pass.
\<close>

theorem overdue_event_still_dispatched:
  assumes "calendars w cid = Some cal" and "e \<in> set (events cal)" and "dueDate e \<le> now"
  shows "\<exists>r w'. monitorCompliance now w cid = (Inr r, w')
       \<and> (e \<in> fst ` set (overdueEvents (complianceReport r))
          \<or> e \<in> fst ` set (upcomingEvents (complianceReport r)))
       \<and> (msPerDay \<le> now - dueDate e \<longrightarrow> e \<in> fst ` set (overdueEvents (complianceReport r)))
       \<and> (automatable e \<and> 0 \<le> automationTrigger e \<longrightarrow>
            e \<in> set (actionableEvents (complianceReport r))
          \<and> resultOf cal e \<in> set (automationResults r))
       \<and> calendars w' = calendars w"
proof -
  from daysUntilDue_passed [OF assms(3)] have d: "daysUntilDue (dueDate e) now \<le> 0" .
  then have surf: "isOverdue now e \<or> isUpcoming now e"
    by (auto simp: isOverdue_def isUpcoming_def)
  have over: "msPerDay \<le> now - dueDate e \<Longrightarrow> isOverdue now e"
    by (simp add: isOverdue_def daysUntilDue_overdue)
  have act: "automatable e \<and> 0 \<le> automationTrigger e \<Longrightarrow> isActionable now e"
    using d by (auto simp: isActionable_def)
  from monitorCompliance_found [OF assms(1), of now]
  obtain r w' where m: "monitorCompliance now w cid = (Inr r, w')"
    and up: "upcomingEvents (complianceReport r)
              = map (\<lambda>e. (e, daysUntilDue (dueDate e) now)) (filter (isUpcoming now) (events cal))"
    and ov: "overdueEvents (complianceReport r)
              = map (\<lambda>e. (e, \<bar>daysUntilDue (dueDate e) now\<bar>)) (filter (isOverdue now) (events cal))"
    and ac: "actionableEvents (complianceReport r) = filter (isActionable now) (events cal)"
    and res: "automationResults r = map (resultOf cal) (filter (isActionable now) (events cal))"
    and c: "calendars w' = calendars w" by blast
  have fo: "fst ` set (overdueEvents (complianceReport r)) = set (filter (isOverdue now) (events cal))"
    by (simp add: ov image_image del: set_filter)
  have fu: "fst ` set (upcomingEvents (complianceReport r)) = set (filter (isUpcoming now) (events cal))"
    by (simp add: up image_image del: set_filter)
  from m c surf over act assms(2) show ?thesis
    by (auto simp: fo fu ac res)
qed

theorem overdue_event_still_dispatched_witness:
  "\<exists>r w'. monitorCompliance 1710892800000 demo_world ''COMP-IL-1704067200000'' = (Inr r, w')
       \<and> demo_event \<in> fst ` set (overdueEvents (complianceReport r))
       \<and> demo_event \<in> set (actionableEvents (complianceReport r))
       \<and> resultOf demo_calendar demo_event \<in> set (automationResults r)
       \<and> calendars w' = calendars demo_world"
proof -
  have e: "demo_event \<in> set (events demo_calendar)" by (simp add: demo_calendar_def)
  have d: "dueDate demo_event \<le> 1710892800000" using demo_event_fields by simp
  have o: "msPerDay \<le> 1710892800000 - dueDate demo_event"
    using demo_event_fields by (simp add: msPerDay_def)
  from overdue_event_still_dispatched [OF demo_lookup e d] o demo_event_fields
  show ?thesis by auto
qed

text \<open>
  The claim as stated fails: five days after its due date \<open>demo_event\<close> is reported
  overdue, and the same pass dispatches it to the executor.
\<close>

theorem overdue_event_dispatched:
  "(case monitorCompliance 1710892800000 demo_world ''COMP-IL-1704067200000'' of
      (Inr r, w') \<Rightarrow>
         map (\<lambda>p. (ev_id (fst p), snd p)) (overdueEvents (complianceReport r))
           = [(''AR-IL-2024'', 5)]
       \<and> map ev_id (actionableEvents (complianceReport r)) = [''AR-IL-2024'']
       \<and> map (\<lambda>r. (ar_eventId r, ar_success r)) (automationResults r)
           = [(''AR-IL-2024'', True)]
    | (Inl msg, w') \<Rightarrow> False)"
  by code_simp

text \<open>
  Claim C10. A monitoring pass leaves the table of calendars exactly as it was, for
  every state, calendar id and clock reading: classification and the executor read the
  calendar, and the pass writes to the memory system only.
\<close>

theorem monitor_never_writes_calendar:
  "calendars (snd (monitorCompliance now w cid)) = calendars w"
proof (cases "calendars w cid")
  case None
  then show ?thesis by (simp add: monitorCompliance_def)
next
  case (Some cal)
  from monitorCompliance_found [OF Some, of now]
  obtain r w' where "monitorCompliance now w cid = (Inr r, w')" and "calendars w' = calendars w"
    by blast
  then show ?thesis by simp
qed


theorem monitor_never_writes_calendar_witness:
  "calendars (snd (monitorCompliance 1709596800000 demo_world ''COMP-IL-1704067200000''))
     = calendars demo_world"
  by (rule monitor_never_writes_calendar)

subsection \<open>Printing numbers\<close>

lemma is_digit_digit_char: "d < 10 \<Longrightarrow> is_digit (digit_char d)"
  by (simp add: is_digit_def digit_char_def)

lemma digit_char_inj: "d < 10 \<Longrightarrow> d' < 10 \<Longrightarrow> digit_char d = digit_char d' \<Longrightarrow> d = d'"
proof -
  assume a: "d < 10" "d' < 10" "digit_char d = digit_char d'"
  then have "(of_char (digit_char d) :: nat) = of_char (digit_char d')" by simp
  with a(1,2) show ?thesis by (simp add: digit_char_def)
qed

lemma show_nat_nonempty: "show_nat n \<noteq> []"
  by (subst show_nat.simps) simp

lemma show_nat_digits: "c \<in> set (show_nat n) \<Longrightarrow> is_digit c"
proof (induction n arbitrary: c rule: show_nat.induct)
  case (1 n)
  show ?case
  proof (cases "n < 10")
    case True
    with "1.prems" show ?thesis
      by (subst (asm) show_nat.simps) (simp add: is_digit_digit_char)
  next
    case False
    with "1.prems" have "c \<in> set (show_nat (n div 10)) \<or> c = digit_char (n mod 10)"
      by (subst (asm) show_nat.simps) auto
    with "1.IH" False show ?thesis by (auto simp: is_digit_digit_char)
  qed
qed

lemma show_nat_inj: "show_nat n = show_nat m \<Longrightarrow> n = m"
proof (induction n arbitrary: m rule: show_nat.induct)
  case (1 n)
  show ?case
  proof (cases "n < 10")
    case n: True
    show ?thesis
    proof (cases "m < 10")
      case True
      with n "1.prems" show ?thesis
        by (subst (asm) (1 2) show_nat.simps) (simp add: digit_char_inj)
    next
      case False
      with n "1.prems" show_nat_nonempty [of "m div 10"] show ?thesis
        by (subst (asm) (1 2) show_nat.simps) (cases "show_nat (m div 10)", auto)
    qed
  next
    case n: False
    show ?thesis
    proof (cases "m < 10")
      case True
      with n "1.prems" show_nat_nonempty [of "n div 10"] show ?thesis
        by (subst (asm) (1 2) show_nat.simps) (cases "show_nat (n div 10)", auto)
    next
      case False
      with n "1.prems" have "show_nat (n div 10) = show_nat (m div 10)"
        and "digit_char (n mod 10) = digit_char (m mod 10)"
        by (subst (asm) (1 2) show_nat.simps, simp)+
      with "1.IH" n have "n div 10 = m div 10" and "n mod 10 = m mod 10"
        by (auto intro: digit_char_inj)
      then show ?thesis by (metis div_mult_mod_eq)
    qed
  qed
qed

lemma show_int_nonneg: "0 \<le> y \<Longrightarrow> show_int y = show_nat (nat y)"
  by (simp add: show_int_def)

lemma show_int_inj: "0 \<le> y \<Longrightarrow> 0 \<le> y' \<Longrightarrow> show_int y = show_int y' \<Longrightarrow> y = y'"
  by (auto simp: show_int_nonneg dest: show_nat_inj)


subsection \<open>Event ids\<close>

lemma split_id_shape:
  assumes "shape_ok (p, q)" "y \<noteq> []" "\<And>c. c \<in> set y \<Longrightarrow> is_digit c"
  shows "split_id (p @ y @ q) = (p, y, q)"
proof -
  from assms(1) have p: "\<And>c. c \<in> set p \<Longrightarrow> \<not> is_digit c"
    by (auto simp: shape_ok_def list_all_iff)
  from assms(2,3) obtain c cs where y: "y = c # cs" and c: "is_digit c"
    by (cases y) auto
  have t1: "takeWhile (\<lambda>c. \<not> is_digit c) (p @ y @ q) = p"
    using p by (simp add: takeWhile_append2 y c)
  have d1: "dropWhile (\<lambda>c. \<not> is_digit c) (p @ y @ q) = y @ q"
    using p by (simp add: dropWhile_append2 y c)
  have t2: "takeWhile is_digit (y @ q) = y"
    using assms(1,3) by (cases q) (auto simp: takeWhile_append2 shape_ok_def)
  have d2: "dropWhile is_digit (y @ q) = q"
    using assms(1,3) by (cases q) (auto simp: dropWhile_append2 shape_ok_def)
  show ?thesis by (simp add: split_id_def t1 d1 t2 d2)
qed

lemma distinct_shapes_years:
  assumes "distinct pqs" "distinct ys"
  shows "distinct (concat (map (\<lambda>y. map (\<lambda>pq. (fst pq, y, snd pq)) pqs) ys))"
  using assms(2)
proof (induction ys)
  case Nil
  then show ?case by simp
next
  case (Cons y ys)
  have "distinct (map (\<lambda>pq. (fst pq, y, snd pq)) pqs)"
    using assms(1) by (auto simp: distinct_map inj_on_def prod_eq_iff)
  with Cons show ?case by auto
qed

lemma set_map_insort_key:
  "set (map g (insort_key f x xs)) = insert (g x) (set (map g xs))"
  by (induction xs) auto

lemma distinct_map_insort_key:
  "distinct (map g (insort_key f x xs)) \<longleftrightarrow> g x \<notin> set (map g xs) \<and> distinct (map g xs)"
  by (induction xs) (auto simp: set_map_insort_key simp del: set_map)

lemma distinct_map_sort_key:
  "distinct (map g (sort_key f xs)) \<longleftrightarrow> distinct (map g xs)"
  by (induction xs) (auto simp: distinct_map_insort_key)

lemma ids_createTaxEvents:
  "map ev_id (createTaxEvents tz ob y) = map (\<lambda>pq. fst pq @ show_int y @ snd pq) (taxShapes ob)"
  by (simp add: createTaxEvents_def taxShapes_def comp_def)

lemma ids_eventsForYear:
  "map ev_id (eventsForYear tz reqs st fd bt y)
     = map (\<lambda>pq. fst pq @ show_int y @ snd pq) (idShapes reqs st)"
  by (simp add: eventsForYear_def idShapes_def map_concat comp_def ids_createTaxEvents
        createAnnualReportEvent_def Let_def createBusinessLicenseEvent_def
        createRegisteredAgentEvent_def createFederalTaxEvents_def)

lemma shapes_FL:
  "distinct (idShapes (the (complianceRequirements ''FL'')) ''FL'')
   \<and> list_all shape_ok (idShapes (the (complianceRequirements ''FL'')) ''FL'')"
  by code_simp

lemma shapes_WY:
  "distinct (idShapes (the (complianceRequirements ''WY'')) ''WY'')
   \<and> list_all shape_ok (idShapes (the (complianceRequirements ''WY'')) ''WY'')"
  by code_simp

lemma shapes_IL:
  "distinct (idShapes (the (complianceRequirements ''IL'')) ''IL'')
   \<and> list_all shape_ok (idShapes (the (complianceRequirements ''IL'')) ''IL'')"
  by code_simp

lemma shapes_known:
  assumes "complianceRequirements st = Some reqs"
  shows "distinct (idShapes reqs st) \<and> list_all shape_ok (idShapes reqs st)"
proof -
  from assms have "st = ''FL'' \<or> st = ''WY'' \<or> st = ''IL''"
    by (auto simp: complianceRequirements_def split: if_splits)
  with assms shapes_FL shapes_WY shapes_IL show ?thesis by auto
qed

lemma ids_generated:
  "map ev_id (generateComplianceEvents tz reqs st fd bt cy)
     = concat (map (\<lambda>y. map (\<lambda>pq. fst pq @ y @ snd pq) (idShapes reqs st))
                 [show_int cy, show_int (cy + 1), show_int (cy + 2)])"
  by (simp add: generateComplianceEvents_def ids_eventsForYear)

lemma distinct_ids_generated:
  assumes "complianceRequirements st = Some reqs" and "0 \<le> cy"
  shows "distinct (map ev_id (generateComplianceEvents tz reqs st fd bt cy))"
proof -
  let ?ys = "[show_int cy, show_int (cy + 1), show_int (cy + 2)]"
  let ?ids = "concat (map (\<lambda>y. map (\<lambda>pq. fst pq @ y @ snd pq) (idShapes reqs st)) ?ys)"
  from shapes_known [OF assms(1)] have dist: "distinct (idShapes reqs st)"
    and ok: "\<And>pq. pq \<in> set (idShapes reqs st) \<Longrightarrow> shape_ok pq"
    by (auto simp: list_all_iff)
  have ys: "distinct ?ys"
    using assms(2) show_int_inj [of cy "cy + 1"] show_int_inj [of cy "cy + 2"]
      show_int_inj [of "cy + 1" "cy + 2"] by auto
  have dig: "\<And>y. y \<in> set ?ys \<Longrightarrow> y \<noteq> [] \<and> (\<forall>c \<in> set y. is_digit c)"
    using assms(2) by (auto simp: show_int_nonneg show_nat_nonempty show_nat_digits)
  have "map split_id ?ids
          = concat (map (\<lambda>y. map (\<lambda>pq. (fst pq, y, snd pq)) (idShapes reqs st)) ?ys)"
  proof -
    have "\<And>y pq. y \<in> set ?ys \<Longrightarrow> pq \<in> set (idShapes reqs st)
             \<Longrightarrow> split_id (fst pq @ y @ snd pq) = (fst pq, y, snd pq)"
      using split_id_shape ok dig by (metis prod.collapse)
    then show ?thesis by (simp add: map_concat comp_def)
  qed
  also have "distinct \<dots>" by (rule distinct_shapes_years [OF dist ys])
  finally have "distinct (map split_id ?ids)" .
  then have "distinct ?ids" by (simp only: distinct_map)
  then show ?thesis by (simp only: ids_generated)
qed

lemma events_created:
  assumes "createComplianceCalendar tz now w cd = (Inr (cid, cal), w')"
  shows "\<exists>reqs fd. complianceRequirements (cd_state cd) = Some reqs \<and> cd_formationDate cd = Some fd
          \<and> events cal = sort_key dueDate
               (generateComplianceEvents tz reqs (cd_state cd) fd (cd_businessType cd) (getFullYear tz now))
          \<and> calendars w' cid = Some cal"
  using assms
  by (auto simp: createComplianceCalendar_def Let_def split: option.splits)

lemma eventsForYear_businessType:
  "eventsForYear tz reqs st fd bt y = eventsForYear tz reqs st fd bt' y"
  by (simp add: eventsForYear_def createFederalTaxEvents_def)

lemma generated_businessType:
  "generateComplianceEvents tz reqs st fd bt cy = generateComplianceEvents tz reqs st fd bt' cy"
  using eventsForYear_businessType [of tz reqs st fd bt _ bt']
  by (simp add: generateComplianceEvents_def)


lemma created_exists:
  assumes "complianceRequirements (cd_state cd) = Some reqs" "cd_formationDate cd = Some fd"
  shows "\<exists>cid cal w1. createComplianceCalendar tz now w cd = (Inr (cid, cal), w1)"
  using assms by (simp add: createComplianceCalendar_def Let_def)

lemma year_2024: "getFullYear 0 1718000000000 = 2024" "getFullYear 0 1718000001000 = 2024"
  by code_simp+

lemma acme_il_fields:
  "cd_state acme_il = ''IL''" "cd_formationDate acme_il = Some 1710028800000"
  "cd_state bolt_il = ''IL''" "cd_formationDate bolt_il = Some 1710028800000"
  by (simp_all add: acme_il_def bolt_il_def)

lemma il_requirements: "\<exists>reqs. complianceRequirements ''IL'' = Some reqs"
  by (simp add: complianceRequirements_def)


text \<open>
  Claim C5. Two runs of calendar generation for the same state in the same clock year
  (in any states of the tables, at any instants of that year, for any business names)
  produce the same set of event ids, and the same list of events when the formation
  date is the same too. Every id is the prefix of its obligation (the id family with
  the state or the tax type), the year and the suffix of its period, for one of the
  three years of the horizon, and no two events of a calendar share an id. The year
  is printed in decimal; the statement is for clock years from 0 on.
\<close>

theorem calendar_generation_deterministic:
  assumes "createComplianceCalendar tz now w cd = (Inr (cid, cal), w1)"
    and "createComplianceCalendar tz now' w' cd' = (Inr (cid', cal'), w1')"
    and "cd_state cd' = cd_state cd"
    and "getFullYear tz now' = getFullYear tz now"
    and "0 \<le> getFullYear tz now"
  shows "distinct (map ev_id (events cal))
       \<and> (\<exists>reqs. complianceRequirements (cd_state cd) = Some reqs
            \<and> set (map ev_id (events cal))
                = (\<Union>y \<in> {getFullYear tz now, getFullYear tz now + 1, getFullYear tz now + 2}.
                     (\<lambda>pq. fst pq @ show_int y @ snd pq) ` set (idShapes reqs (cd_state cd))))
       \<and> set (map ev_id (events cal')) = set (map ev_id (events cal))
       \<and> (cd_formationDate cd' = cd_formationDate cd \<longrightarrow> events cal' = events cal)"
proof -
  let ?cy = "getFullYear tz now"
  from events_created [OF assms(1)] obtain reqs fd
    where r: "complianceRequirements (cd_state cd) = Some reqs"
      and e: "events cal = sort_key dueDate
               (generateComplianceEvents tz reqs (cd_state cd) fd (cd_businessType cd) ?cy)"
      and f: "cd_formationDate cd = Some fd"
    by blast
  from events_created [OF assms(2)] r assms(3,4) obtain fd'
    where e': "events cal' = sort_key dueDate
               (generateComplianceEvents tz reqs (cd_state cd) fd' (cd_businessType cd') ?cy)"
      and f': "cd_formationDate cd' = Some fd'"
    by auto
  have d: "distinct (map ev_id (events cal))"
    by (simp only: e distinct_map_sort_key distinct_ids_generated [OF r assms(5)])
  have ids: "set (map ev_id (events cal))
        = (\<Union>y \<in> {?cy, ?cy + 1, ?cy + 2}.
             (\<lambda>pq. fst pq @ show_int y @ snd pq) ` set (idShapes reqs (cd_state cd)))"
  proof -
    have "set (map ev_id (events cal))
            = set (map ev_id (generateComplianceEvents tz reqs (cd_state cd) fd (cd_businessType cd) ?cy))"
      by (simp add: e)
    also have "\<dots> = set (concat (map (\<lambda>y. map (\<lambda>pq. fst pq @ y @ snd pq) (idShapes reqs (cd_state cd)))
                              [show_int ?cy, show_int (?cy + 1), show_int (?cy + 2)]))"
      by (simp only: ids_generated)
    also have "\<dots> = (\<Union>y \<in> {?cy, ?cy + 1, ?cy + 2}.
             (\<lambda>pq. fst pq @ show_int y @ snd pq) ` set (idShapes reqs (cd_state cd)))"
      by (simp add: Un_assoc)
    finally show ?thesis .
  qed
  have "set (map ev_id (events cal'))
          = set (map ev_id (generateComplianceEvents tz reqs (cd_state cd) fd' (cd_businessType cd') ?cy))"
    by (simp add: e')
  also have "\<dots> = set (map ev_id (generateComplianceEvents tz reqs (cd_state cd) fd (cd_businessType cd) ?cy))"
    by (simp only: ids_generated)
  also have "\<dots> = set (map ev_id (events cal))"
    by (simp add: e)
  finally have same: "set (map ev_id (events cal')) = set (map ev_id (events cal))" .
  have "cd_formationDate cd' = cd_formationDate cd \<longrightarrow> events cal' = events cal"
    using e e' f f'
      generated_businessType [of tz reqs "cd_state cd" fd "cd_businessType cd'" _ "cd_businessType cd"]
    by auto
  with d r ids same show ?thesis by blast
qed

theorem calendar_generation_deterministic_witness:
  "\<exists>cid cal w1 cid' cal' w1'.
      createComplianceCalendar 0 1718000000000 empty_comp_world acme_il = (Inr (cid, cal), w1)
    \<and> createComplianceCalendar 0 1718000001000 w1 bolt_il = (Inr (cid', cal'), w1')
    \<and> distinct (map ev_id (events cal))
    \<and> set (map ev_id (events cal')) = set (map ev_id (events cal))
    \<and> events cal' = events cal"
proof -
  from il_requirements obtain reqs where r: "complianceRequirements ''IL'' = Some reqs" ..
  from created_exists [of acme_il reqs 1710028800000 0 1718000000000 empty_comp_world] r
  obtain cid cal w1
    where c1: "createComplianceCalendar 0 1718000000000 empty_comp_world acme_il = (Inr (cid, cal), w1)"
    by (auto simp: acme_il_fields)
  from created_exists [of bolt_il reqs 1710028800000 0 1718000001000 w1] r
  obtain cid' cal' w1'
    where c2: "createComplianceCalendar 0 1718000001000 w1 bolt_il = (Inr (cid', cal'), w1')"
    by (auto simp: acme_il_fields)
  have s: "cd_state bolt_il = cd_state acme_il" by (simp add: acme_il_fields)
  have y: "getFullYear 0 1718000001000 = getFullYear 0 1718000000000" by (simp add: year_2024)
  have p: "0 \<le> getFullYear 0 1718000000000" by (simp add: year_2024)
  from calendar_generation_deterministic [OF c1 c2 s y p] c1 c2 show ?thesis
    by (auto simp: acme_il_fields)
qed

subsection \<open>Annual report events\<close>














end
